theory Spec2Isabelle
  imports Main "HOL-Library.Char_ord" "HOL-Library.List_Lexorder" "HOL-Library.AList"
begin

section \<open>Go strings and 64-bit integers\<close>

text \<open>
  A Go string is a sequence of bytes and is modelled as a \<open>string\<close> (a list of 8-bit
  characters). \<open>HOL-Library.Char_ord\<close> orders characters by their byte value and
  \<open>HOL-Library.List_Lexorder\<close> orders lists lexicographically, which together is Go's
  \<open><\<close> on strings, the order of \<open>sort.Strings\<close>.

  A rune outside ASCII is the sequence of its UTF-8 bytes.
\<close>

text \<open>
  The white space of \<open>unicode.IsSpace\<close>, each rune as its UTF-8 bytes: the six ASCII
  characters, U+0085, U+00A0, U+1680, U+2000 to U+200A, U+2028, U+2029, U+202F, U+205F and
  U+3000.
\<close>

definition space_runes :: "string list" where
  "space_runes =
     [[CHR 0x09], [CHR 0x0A], [CHR 0x0B], [CHR 0x0C], [CHR 0x0D], [CHR 0x20],
      [CHR 0xC2, CHR 0x85], [CHR 0xC2, CHR 0xA0],
      [CHR 0xE1, CHR 0x9A, CHR 0x80],
      [CHR 0xE2, CHR 0x80, CHR 0x80], [CHR 0xE2, CHR 0x80, CHR 0x81],
      [CHR 0xE2, CHR 0x80, CHR 0x82], [CHR 0xE2, CHR 0x80, CHR 0x83],
      [CHR 0xE2, CHR 0x80, CHR 0x84], [CHR 0xE2, CHR 0x80, CHR 0x85],
      [CHR 0xE2, CHR 0x80, CHR 0x86], [CHR 0xE2, CHR 0x80, CHR 0x87],
      [CHR 0xE2, CHR 0x80, CHR 0x88], [CHR 0xE2, CHR 0x80, CHR 0x89],
      [CHR 0xE2, CHR 0x80, CHR 0x8A],
      [CHR 0xE2, CHR 0x80, CHR 0xA8], [CHR 0xE2, CHR 0x80, CHR 0xA9],
      [CHR 0xE2, CHR 0x80, CHR 0xAF], [CHR 0xE2, CHR 0x81, CHR 0x9F],
      [CHR 0xE3, CHR 0x80, CHR 0x80]]"

text \<open>
  \<open>strings.TrimSpace\<close> removes the white-space runes at the start of the string and then
  those at its end. A string starts (ends) with a white-space rune exactly when it starts
  (ends) with the bytes of one: an invalid byte decodes to U+FFFD, which is no white space.
\<close>

fun trim_left :: "string list \<Rightarrow> string \<Rightarrow> string" where
  "trim_left runes [] = []"
| "trim_left runes (c # s) =
     (case List.find (\<lambda>r. r \<noteq> [] \<and> take (length r) (c # s) = r) runes of
        None \<Rightarrow> c # s
      | Some r \<Rightarrow> trim_left runes (drop (length r - 1) s))"

definition TrimSpace :: "string \<Rightarrow> string" where
  "TrimSpace s = rev (trim_left (map rev space_runes) (rev (trim_left space_runes s)))"

definition is_upper :: "char \<Rightarrow> bool" where
  "is_upper c = (65 \<le> (of_char c :: nat) \<and> (of_char c :: nat) \<le> 90)"

definition is_lower :: "char \<Rightarrow> bool" where
  "is_lower c = (97 \<le> (of_char c :: nat) \<and> (of_char c :: nat) \<le> 122)"

definition is_digit :: "char \<Rightarrow> bool" where
  "is_digit c = (48 \<le> (of_char c :: nat) \<and> (of_char c :: nat) \<le> 57)"

definition is_alpha :: "char \<Rightarrow> bool" where
  "is_alpha c = (is_upper c \<or> is_lower c)"

definition upper_char :: "char \<Rightarrow> char" where
  "upper_char c = (if is_lower c then char_of (of_char c - (32::nat)) else c)"

definition lower_char :: "char \<Rightarrow> char" where
  "lower_char c = (if is_upper c then char_of (of_char c + (32::nat)) else c)"

text \<open>
  \<open>strings.ToUpper\<close> and \<open>strings.ToLower\<close> map every rune to its upper or lower case.
  An ASCII letter changes its case. Two runes outside ASCII have an ASCII upper case,
  U+0131 (\<open>I\<close>) and U+017F (\<open>S\<close>), and two an ASCII lower case, U+0130 (\<open>i\<close>) and
  U+212A (\<open>k\<close>). Every other rune outside ASCII is left as it is here: Go maps it to a
  rune outside ASCII as well (an invalid byte to U+FFFD), and the program only compares
  the results with ASCII strings.
\<close>

fun ToUpper :: "string \<Rightarrow> string" where
  "ToUpper [] = []"
| "ToUpper (c # s) =
     (if take 2 (c # s) = [CHR 0xC4, CHR 0xB1] then CHR ''I'' # ToUpper (drop 1 s)
      else if take 2 (c # s) = [CHR 0xC5, CHR 0xBF] then CHR ''S'' # ToUpper (drop 1 s)
      else upper_char c # ToUpper s)"

fun ToLower :: "string \<Rightarrow> string" where
  "ToLower [] = []"
| "ToLower (c # s) =
     (if take 2 (c # s) = [CHR 0xC4, CHR 0xB0] then CHR ''i'' # ToLower (drop 1 s)
      else if take 3 (c # s) = [CHR 0xE2, CHR 0x84, CHR 0xAA] then CHR ''k'' # ToLower (drop 2 s)
      else lower_char c # ToLower s)"

text \<open>
  Go's \<open>int64\<close> (and \<open>time.Duration\<close>, an \<open>int64\<close> count of nanoseconds) is an
  \<open>int\<close> whose arithmetic results are wrapped into the range \<open>-2^63 ..< 2^63\<close>.
  Go's division truncates towards zero.
\<close>

definition wrap64 :: "int \<Rightarrow> int" where
  "wrap64 x = (x + 2 ^ 63) mod 2 ^ 64 - 2 ^ 63"

definition go_div :: "int \<Rightarrow> int \<Rightarrow> int" where
  "go_div a b = wrap64 (sgn a * sgn b * (\<bar>a\<bar> div \<bar>b\<bar>))"

section \<open>Catalog client: the file-size parser (download.go)\<close>

text \<open>
  \<open>\s\<close> of Go's regular expressions is the class \<open>[\t\n\f\r ]\<close>; \<open>\d\<close> is an ASCII
  digit.
\<close>

definition is_re_space :: "char \<Rightarrow> bool" where
  "is_re_space c = (c \<in> set [CHR 0x09, CHR 0x0A, CHR 0x0C, CHR 0x0D, CHR 0x20])"

text \<open>
  \<open>re.FindStringSubmatch\<close> for the expression
  \<^verbatim>\<open>^(\d+)(?:[.,](\d+))?\s*([A-Za-z]*)$\<close>: the three groups (integer part, decimal
  part, unit) when the whole string matches. A group that did not take part in the match
  is the empty string. Every repetition is followed by a class disjoint from it, so the
  greedy match is the only one.
\<close>

definition size_submatch :: "string \<Rightarrow> (string \<times> string \<times> string) option" where
  "size_submatch s =
     (let integerPart = takeWhile is_digit s; r1 = dropWhile is_digit s in
      if integerPart = [] then None
      else
        let (decimalPart, r2) =
              (case r1 of
                 [] \<Rightarrow> ([], r1)
               | c # t \<Rightarrow>
                   if (c = CHR ''.'' \<or> c = CHR '','') \<and> takeWhile is_digit t \<noteq> []
                   then (takeWhile is_digit t, dropWhile is_digit t)
                   else ([], r1));
            r3 = dropWhile is_re_space r2;
            unit = takeWhile is_alpha r3
        in if dropWhile is_alpha r3 = [] then Some (integerPart, decimalPart, unit) else None)"

definition digit_value :: "char \<Rightarrow> int" where
  "digit_value c = int (of_char c) - 48"

definition decimal_value :: "string \<Rightarrow> int" where
  "decimal_value s = foldl (\<lambda>a c. 10 * a + digit_value c) 0 s"

text \<open>
  The local \<open>parseInt\<close>: none for the empty string and when \<open>strconv.ParseInt(str, 10, 64)\<close>
  reports a value out of range. It is only applied to strings of digits.
\<close>

definition parseInt :: "string \<Rightarrow> int option" where
  "parseInt str =
     (if str = [] then None
      else if decimal_value str \<le> 2 ^ 63 - 1 then Some (decimal_value str) else None)"

definition getUnitMultiplier :: "string \<Rightarrow> int" where
  "getUnitMultiplier unit =
     (let u = ToUpper (TrimSpace unit) in
      if u \<in> set [''TB'', ''TIB'', ''T''] then 2 ^ 40
      else if u \<in> set [''GB'', ''GIB'', ''G''] then 2 ^ 30
      else if u \<in> set [''MB'', ''MIB'', ''M''] then 2 ^ 20
      else if u \<in> set [''KB'', ''KIB'', ''K''] then 2 ^ 10
      else if u \<in> set [''B'', ''BYTES'', ''BYTE'', ''''] then 1
      else 0)"

text \<open>
  \<open>int64(math.Pow10(n))\<close>: exact up to \<open>10^18\<close>; beyond that the float does not fit an
  \<open>int64\<close> and the conversion yields the smallest \<open>int64\<close> (the amd64 result).
\<close>

definition pow10_int64 :: "nat \<Rightarrow> int" where
  "pow10_int64 n = (if n \<le> 18 then 10 ^ n else - (2 ^ 63))"

text \<open>\<open>option.Sequence2(add)\<close>: some only when both arguments are.\<close>

definition Sequence2 :: "('a \<Rightarrow> 'b \<Rightarrow> 'c option) \<Rightarrow> 'a option \<Rightarrow> 'b option \<Rightarrow> 'c option" where
  "Sequence2 f o1 o2 =
     (case o1 of None \<Rightarrow> None | Some a \<Rightarrow> (case o2 of None \<Rightarrow> None | Some b \<Rightarrow> f a b))"

definition parseFileSize :: "string \<Rightarrow> int" where
  "parseFileSize s0 =
     (let s = TrimSpace s0 in
      if s = [] then 0
      else
        case size_submatch s of
          None \<Rightarrow> 0
        | Some (integerPart, decimalPart, unit0) \<Rightarrow>
            let unit = ToUpper unit0;
                multiplier = getUnitMultiplier unit;
                whole = map_option (\<lambda>whole. wrap64 (whole * multiplier)) (parseInt integerPart);
                add = (\<lambda>a b. Some (wrap64 (a + b)));
                decimal = map_option
                  (\<lambda>decimal. let scale = pow10_int64 (length decimalPart)
                             in go_div (wrap64 (decimal * multiplier)) scale)
                  (parseInt decimalPart);
                total = Sequence2 add whole decimal
            in (case total of Some t \<Rightarrow> t | None \<Rightarrow> 0))"

section \<open>Errors\<close>

text \<open>
  The Go errors the modelled functions construct or pass on. \<open>Canceled\<close> is
  \<open>ctx.Err()\<close> of a cancelled scope; \<open>IOError\<close> stands for an error reported by the
  operating system or a library (opening a file, parsing XML, reading an archive), with its
  message; \<open>Wrapped\<close> is an error wrapped by \<open>fmt.Errorf\<close> with its prefix.
\<close>

datatype error =
    MissingRequiredAttributes
  | MissingClassificationScheme
  | MissingSchemeAttribute
  | MissingClassificationSymbol
  | MissingDataFormat
  | NoDocumentId
  | Canceled
  | BadStatus int
  | IOError string
  | Wrapped string error

text \<open>
  \<open>TraverseArray\<close> of \<open>either\<close> and \<open>ioeither\<close>: the results of \<open>f\<close> on every element,
  or the first error in the order of the array.
\<close>

fun TraverseArray :: "('a \<Rightarrow> 'e + 'b) \<Rightarrow> 'a list \<Rightarrow> 'e + 'b list" where
  "TraverseArray f [] = Inr []"
| "TraverseArray f (x # xs) =
     (case f x of
        Inl e \<Rightarrow> Inl e
      | Inr y \<Rightarrow> (case TraverseArray f xs of Inl e \<Rightarrow> Inl e | Inr ys \<Rightarrow> Inr (y # ys)))"

definition GetOrElse :: "('e \<Rightarrow> 'a) \<Rightarrow> 'e + 'a \<Rightarrow> 'a" where
  "GetOrElse onLeft r = (case r of Inl e \<Rightarrow> onLeft e | Inr a \<Rightarrow> a)"

definition Join :: "string list \<Rightarrow> string \<Rightarrow> string" where
  "Join elems sep = (case elems of [] \<Rightarrow> [] | x # xs \<Rightarrow> x @ concat (map (\<lambda>y. sep @ y) xs))"

section \<open>XML trees (package xmlquery)\<close>

text \<open>
  An \<open>xmlquery.Node\<close>: the document node, an element with its prefix, local name
  (\<open>Data\<close>), attributes and children, a text (or character data) node, or a comment.
\<close>

record Attr =
  Space :: string
  Local :: string
  Value :: string

datatype Node =
    DocumentNode "Node list"
  | ElementNode string string "Attr list" "Node list"
  | TextNode string
  | CommentNode string

fun children :: "Node \<Rightarrow> Node list" where
  "children (DocumentNode cs) = cs"
| "children (ElementNode p d as cs) = cs"
| "children (TextNode t) = []"
| "children (CommentNode t) = []"

text \<open>The XPath test \<open>*[local-name()='name']\<close> on one node.\<close>

fun has_local_name :: "string \<Rightarrow> Node \<Rightarrow> bool" where
  "has_local_name name (ElementNode p d as cs) = (d = name)"
| "has_local_name name n = False"

text \<open>
  \<open>n.SelectAttr(name)\<close> for a name without a prefix: the value of the first attribute
  with that local name and no prefix, the empty string when there is none.
\<close>

fun SelectAttr :: "Node \<Rightarrow> string \<Rightarrow> string" where
  "SelectAttr (ElementNode p d as cs) name =
     (case List.find (\<lambda>a. Local a = name \<and> Space a = []) as of
        None \<Rightarrow> []
      | Some a \<Rightarrow> Value a)"
| "SelectAttr n name = []"

text \<open>\<open>n.InnerText()\<close>: the text of all text nodes below the node, comments left out.\<close>

fun InnerText :: "Node \<Rightarrow> string" where
  "InnerText (TextNode t) = t"
| "InnerText (CommentNode t) = []"
| "InnerText (ElementNode p d as cs) = concat (map InnerText cs)"
| "InnerText (DocumentNode cs) = concat (map InnerText cs)"

text \<open>All nodes strictly below a node, in document order.\<close>

fun descendants :: "Node \<Rightarrow> Node list" where
  "descendants (DocumentNode cs) = concat (map (\<lambda>c. c # descendants c) cs)"
| "descendants (ElementNode p d as cs) = concat (map (\<lambda>c. c # descendants c) cs)"
| "descendants (TextNode t) = []"
| "descendants (CommentNode t) = []"

text \<open>
  The XPath expressions of the program, each a constant and well-formed, so that
  \<open>QueryAll\<close> cannot fail on them:
  \<^item> \<open>find_children name n\<close> is \<^verbatim>\<open>*[local-name()='name']\<close>;
  \<^item> \<open>find_descendants name n\<close> is \<^verbatim>\<open>.//*[local-name()='name']\<close> (and, from the
    document node, \<^verbatim>\<open>//*[local-name()='name']\<close>);
  \<^item> \<open>find_descendants_children a b n\<close> is
    \<^verbatim>\<open>.//*[local-name()='a']/*[local-name()='b']\<close>.
\<close>

definition find_children :: "string \<Rightarrow> Node \<Rightarrow> Node list" where
  "find_children name n = filter (has_local_name name) (children n)"

definition find_descendants :: "string \<Rightarrow> Node \<Rightarrow> Node list" where
  "find_descendants name n = filter (has_local_name name) (descendants n)"

definition find_descendants_children :: "string \<Rightarrow> string \<Rightarrow> Node \<Rightarrow> Node list" where
  "find_descendants_children a b n = concat (map (find_children b) (find_descendants a n))"

text \<open>\<open>xmlquery.FindOne\<close>: the first node of the result, \<open>nil\<close> when it is empty.\<close>

definition FindOne :: "Node \<Rightarrow> string \<Rightarrow> Node option" where
  "FindOne n name = (case find_children name n of [] \<Rightarrow> None | x # xs \<Rightarrow> Some x)"

text \<open>
  \<open>FindOne\<close> for \<^verbatim>\<open>*[local-name()='a']/*[local-name()='b']\<close>.
\<close>

definition FindOne2 :: "Node \<Rightarrow> string \<Rightarrow> string \<Rightarrow> Node option" where
  "FindOne2 n a b =
     (case concat (map (find_children b) (find_children a n)) of [] \<Rightarrow> None | x # xs \<Rightarrow> Some x)"

definition getText :: "Node \<Rightarrow> string \<Rightarrow> string" where
  "getText parent selector =
     (case FindOne parent selector of None \<Rightarrow> [] | Some n \<Rightarrow> TrimSpace (InnerText n))"

section \<open>The record extractor (parse.go, epo-models.go)\<close>

record PatentClassification =
  Scheme :: string
  ClassificationSymbol :: string

record Citation =
  CitedID :: string
  Categories :: "string list"

record DocumentID =
  id_Country :: string
  id_DocNumber :: string
  id_Kind :: string

record PublicationReference =
  DataFormat :: string
  DocumentID :: DocumentID

record FamilyMember =
  PublicationReferences :: "PublicationReference list"

record ExchangeDocument =
  Country :: string
  DocNumber :: string
  Kind :: string
  Status :: string
  PatentClassifications :: "PatentClassification list"
  Citations :: "Citation list"
  FamilyMembers :: "FamilyMember list"

text \<open>
  The first part of \<open>exchangeDocumentFromNode\<close>: one \<open>patent-classification\<close> node to a
  \<open>PatentClassification\<close>, and the list for the document. \<open>IOE.GetOrElse\<close> replaces a
  failed traversal by the empty list.
\<close>

definition classificationFromNode :: "Node \<Rightarrow> error + PatentClassification" where
  "classificationFromNode n =
     (case FindOne n ''classification-scheme'' of
        None \<Rightarrow> Inl MissingClassificationScheme
      | Some schemeNode \<Rightarrow>
          let scheme = SelectAttr schemeNode ''scheme'' in
          if scheme = [] then Inl MissingSchemeAttribute
          else
            (case FindOne n ''classification-symbol'' of
               None \<Rightarrow> Inl MissingClassificationSymbol
             | Some symbolNode \<Rightarrow>
                 let symbol = TrimSpace (InnerText symbolNode) in
                 Inr \<lparr>Scheme = scheme, ClassificationSymbol = symbol\<rparr>))"

definition classifications :: "Node \<Rightarrow> PatentClassification list" where
  "classifications node =
     GetOrElse (\<lambda>_. [])
       (TraverseArray classificationFromNode (find_descendants ''patent-classification'' node))"

text \<open>
  The citations. \<open>find_categories\<close> is \<open>xmlquery.Find\<close> for the union
  \<^verbatim>\<open>*[local-name()='category'] | *[local-name()='rel-passage']/*[local-name()='category']\<close>:
  the nodes of the left operand in their order, then those of the right operand (a node
  cannot belong to both).
\<close>

definition find_categories :: "Node \<Rightarrow> Node list" where
  "find_categories n =
     find_children ''category'' n @
     concat (map (find_children ''category'') (find_children ''rel-passage'' n))"

definition citationFromNode :: "Node \<Rightarrow> error + Citation" where
  "citationFromNode n =
     (let categories =
            filter (\<lambda>s. s \<noteq> []) (map (\<lambda>c. TrimSpace (InnerText c)) (find_categories n));
          citedID =
            (case FindOne2 n ''patcit'' ''document-id'' of
               None \<Rightarrow> []
             | Some docIDNode \<Rightarrow>
                 let c = getText docIDNode ''country'';
                     d = getText docIDNode ''doc-number'';
                     k = getText docIDNode ''kind''
                 in if \<not> (c = [] \<and> d = [] \<and> k = []) then c @ d @ k else [])
      in Inr \<lparr>CitedID = citedID, Categories = categories\<rparr>)"

definition citations :: "Node \<Rightarrow> Citation list" where
  "citations node =
     GetOrElse (\<lambda>_. [])
       (TraverseArray citationFromNode
          (find_descendants_children ''references-cited'' ''citation'' node))"

text \<open>The family members.\<close>

definition publicationReferenceFromNode :: "Node \<Rightarrow> error + PublicationReference" where
  "publicationReferenceFromNode pr =
     (let dataFormat = SelectAttr pr ''data-format'' in
      if dataFormat = [] then Inl MissingDataFormat
      else
        (case FindOne pr ''document-id'' of
           None \<Rightarrow> Inl NoDocumentId
         | Some docIDNode \<Rightarrow>
             let c = getText docIDNode ''country'';
                 d = getText docIDNode ''doc-number'';
                 k = getText docIDNode ''kind''
             in Inr \<lparr>DataFormat = dataFormat,
                     DocumentID = \<lparr>id_Country = c, id_DocNumber = d, id_Kind = k\<rparr>\<rparr>))"

definition familyMemberFromNode :: "Node \<Rightarrow> error + FamilyMember" where
  "familyMemberFromNode familyNode =
     (case TraverseArray publicationReferenceFromNode
             (find_children ''publication-reference'' familyNode) of
        Inl e \<Rightarrow> Inl e
      | Inr refs \<Rightarrow> Inr \<lparr>PublicationReferences = refs\<rparr>)"

definition familyMembers :: "Node \<Rightarrow> FamilyMember list" where
  "familyMembers node =
     GetOrElse (\<lambda>_. [])
       (TraverseArray familyMemberFromNode
          (find_descendants_children ''patent-family'' ''family-member'' node))"

text \<open>
  The second part of \<open>exchangeDocumentFromNode\<close>: the row of a document. A Go
  \<open>map[string]struct{}\<close> used as a set is the list of its keys, without duplicates; the
  order in which \<open>range\<close> visits them does not matter, because the keys are sorted next
  (\<open>sort\<close> is \<open>sort.Strings\<close>).
\<close>

definition patentID :: "ExchangeDocument \<Rightarrow> string" where
  "patentID doc = Country doc @ DocNumber doc @ Kind doc"

definition cpcSet :: "ExchangeDocument \<Rightarrow> string list" where
  "cpcSet doc =
     fold (\<lambda>pc s. if Scheme pc = ''CPCI'' then List.insert (ClassificationSymbol pc) s else s)
       (PatentClassifications doc) []"

definition cpcStr :: "ExchangeDocument \<Rightarrow> string" where
  "cpcStr doc = (let cpcList = sort (cpcSet doc) in Join cpcList '';'')"

definition citationsStr :: "ExchangeDocument \<Rightarrow> string" where
  "citationsStr doc =
     Join (concat (map (\<lambda>c. if CitedID c \<noteq> []
                             then [CitedID c @ '' ('' @ Join (Categories c) '','' @ '')'']
                             else [])
                    (Citations doc)))
       '';''"

definition fid :: "PublicationReference \<Rightarrow> string" where
  "fid pr = id_Country (DocumentID pr) @ id_DocNumber (DocumentID pr) @ id_Kind (DocumentID pr)"

definition familySet :: "ExchangeDocument \<Rightarrow> string list" where
  "familySet doc =
     fold (\<lambda>fm s.
             fold (\<lambda>pr s. if DataFormat pr = ''docdb''
                           then (if fid pr \<noteq> patentID doc then List.insert (fid pr) s else s)
                           else s)
               (PublicationReferences fm) s)
       (FamilyMembers doc) []"

definition familyStr :: "ExchangeDocument \<Rightarrow> string" where
  "familyStr doc = (let familyList = sort (familySet doc) in Join familyList '';'')"

text \<open>
  \<open>exchangeDocumentFromNode\<close>. The \<open>[5]string\<close> it returns is a list of five strings, the
  columns \<open>patent_id\<close>, \<open>status\<close>, \<open>cpc_list\<close>, \<open>citations\<close>, \<open>family_patents\<close>.
\<close>

definition documentFromNode :: "Node \<Rightarrow> ExchangeDocument" where
  "documentFromNode node =
     \<lparr>Country = SelectAttr node ''country'',
      DocNumber = SelectAttr node ''doc-number'',
      Kind = SelectAttr node ''kind'',
      Status = SelectAttr node ''status'',
      PatentClassifications = classifications node,
      Citations = citations node,
      FamilyMembers = familyMembers node\<rparr>"

definition exchangeDocumentFromNode :: "Node \<Rightarrow> error + string list" where
  "exchangeDocumentFromNode node =
     (let country = SelectAttr node ''country'';
          docNumber = SelectAttr node ''doc-number'';
          kind = SelectAttr node ''kind'';
          status = SelectAttr node ''status''
      in if country = [] \<or> docNumber = [] \<or> kind = [] \<or> status = []
         then Inl MissingRequiredAttributes
         else
           let doc = documentFromNode node
           in Inr [patentID doc, Status doc, cpcStr doc, citationsStr doc, familyStr doc])"

abbreviation patent_id :: "string list \<Rightarrow> string" where "patent_id row \<equiv> row ! 0"
abbreviation cpc_list :: "string list \<Rightarrow> string" where "cpc_list row \<equiv> row ! 2"
abbreviation citations_col :: "string list \<Rightarrow> string" where "citations_col row \<equiv> row ! 3"
abbreviation family_patents :: "string list \<Rightarrow> string" where "family_patents row \<equiv> row ! 4"

text \<open>
  \<open>processSingleXML\<close>. What the operating system and the XML parser return for the path
  is the argument \<open>src\<close>: the error of \<open>os.Open\<close> or of \<open>f.Stat\<close> if any, and the result
  of \<open>xmlquery.Parse\<close>. The cancellation scope is a function of the place where it is
  polled: \<open>ctx p\<close> holds when the scope is found cancelled at poll \<open>p\<close> (0 before the size is
  read, 1 before parsing, 2 before the query, \<open>3 + i\<close> before exchange-document \<open>i\<close>).
\<close>

record XmlSource =
  OpenErr :: "error option"
  StatErr :: "error option"
  Parsed :: "error + Node"

definition processSingleXML :: "(nat \<Rightarrow> bool) \<Rightarrow> XmlSource \<Rightarrow> error + string list list" where
  "processSingleXML ctx src =
     (case OpenErr src of
        Some e \<Rightarrow> Inl e
      | None \<Rightarrow>
          if ctx 0 then Inl Canceled
          else
            (case StatErr src of
               Some e \<Rightarrow> Inl e
             | None \<Rightarrow>
                 if ctx 1 then Inl Canceled
                 else
                   (case Parsed src of
                      Inl e \<Rightarrow> Inl e
                    | Inr doc \<Rightarrow>
                        if ctx 2 then Inl Canceled
                        else
                          TraverseArray
                            (\<lambda>(i, node). if ctx (3 + i) then Inl Canceled
                                          else exchangeDocumentFromNode node)
                            (enumerate 0 (find_descendants ''exchange-document'' doc)))))"

text \<open>
  The body of the goroutine that \<open>ParseAllToCSV\<close> starts for one XML file. The
  goroutines of different files run concurrently and share the CSV writer, the one-slot
  error channel and the counters, which are the state here. The buffered writer keeps the
  first error of the underlying file and then refuses every write (\<open>writerErr\<close>);
  \<open>csv_rows\<close> are the rows the writer has accepted, in order.
\<close>

record ParseState =
  csv_rows :: "string list list"
  writerErr :: "error option"
  errChan :: "error option"
  xmlFilesFailed :: nat
  xmlFilesSuccess :: nat
  recordsTotal :: nat
  processedFiles :: nat

definition safeWrite :: "ParseState \<Rightarrow> string list \<Rightarrow> ParseState \<times> error option" where
  "safeWrite st row =
     (case writerErr st of
        Some e \<Rightarrow> (st, Some e)
      | None \<Rightarrow> (st\<lparr>csv_rows := csv_rows st @ [row]\<rparr>, None))"

text \<open>\<open>ET.TraverseArray\<close> over \<open>safeWrite\<close>: it stops at the first write that fails.\<close>

fun write_records ::
  "ParseState \<Rightarrow> string list list \<Rightarrow> ParseState \<times> (error + string list list)" where
  "write_records st [] = (st, Inr [])"
| "write_records st (record # records) =
     (case safeWrite st record of
        (st1, Some e) \<Rightarrow> (st1, Inl e)
      | (st1, None) \<Rightarrow>
          (case write_records st1 records of
             (st2, Inl e) \<Rightarrow> (st2, Inl e)
           | (st2, Inr rs) \<Rightarrow> (st2, Inr (record # rs))))"

text \<open>A send on the one-slot channel under \<open>select\<close> with a \<open>default\<close> branch.\<close>

definition offer :: "error option \<Rightarrow> error \<Rightarrow> error option" where
  "offer ch e = (case ch of None \<Rightarrow> Some e | Some x \<Rightarrow> Some x)"

definition record_failure :: "ParseState \<Rightarrow> error \<Rightarrow> ParseState" where
  "record_failure st e = st\<lparr>xmlFilesFailed := xmlFilesFailed st + 1, errChan := offer (errChan st) e\<rparr>"

definition parse_worker :: "(nat \<Rightarrow> bool) \<Rightarrow> string \<Rightarrow> XmlSource \<Rightarrow> ParseState \<Rightarrow> ParseState" where
  "parse_worker ctx path src st =
     (case processSingleXML ctx src of
        Inl err \<Rightarrow> record_failure st (Wrapped (''failed to process '' @ path) err)
      | Inr records \<Rightarrow>
          let (st1, res) = write_records st records;
              st2 = (case res of
                       Inr rs \<Rightarrow> st1\<lparr>recordsTotal := recordsTotal st1 + length rs\<rparr>
                     | Inl err \<Rightarrow> record_failure st1 err)
          in case writerErr st2 of
               Some flushErr \<Rightarrow> record_failure st2 flushErr
             | None \<Rightarrow>
                 (let st3 = (case res of
                               Inr rs \<Rightarrow> st2\<lparr>xmlFilesSuccess := xmlFilesSuccess st2 + 1\<rparr>
                             | Inl err \<Rightarrow> st2)
                  in st3\<lparr>processedFiles := processedFiles st3 + 1\<rparr>))"

section \<open>The file fetcher (download.go)\<close>

subsection \<open>The timeout of the HTTP client\<close>

text \<open>
  \<open>time.Second\<close> in nanoseconds, and the \<open>timeout\<close> that \<open>FetchFiles\<close> gives the HTTP
  client. The argument is \<open>Cfg.Server.Timeout\<close>, a \<open>time.Duration\<close>: a number of
  nanoseconds (the flag's default is the duration \<open>30s\<close>, that is 30000000000).
\<close>

definition Second :: int where
  "Second = 1000000000"

definition FetchFiles_timeout :: "int \<Rightarrow> int" where
  "FetchFiles_timeout t = (if t > 0 then wrap64 (t * Second) else 30 * Second)"

subsection \<open>Retrying a download\<close>

text \<open>
  Package \<open>retry\<close> of the fp-go library that the program imports: the status of a
  retried action, the policies \<open>LimitRetries\<close> and \<open>ExponentialBackoff\<close>, their
  combination \<open>Monoid.Concat\<close> (no delay if either has none, else the larger delay) and
  \<open>ApplyPolicy\<close>. Delays are durations in nanoseconds.
\<close>

record RetryStatus =
  IterNumber :: nat
  CumulativeDelay :: int
  PreviousDelay :: "int option"

type_synonym RetryPolicy = "RetryStatus \<Rightarrow> int option"

definition DefaultRetryStatus :: RetryStatus where
  "DefaultRetryStatus = \<lparr>IterNumber = 0, CumulativeDelay = 0, PreviousDelay = None\<rparr>"

definition LimitRetries :: "nat \<Rightarrow> RetryPolicy" where
  "LimitRetries i status = (if IterNumber status < i then Some 0 else None)"

definition ExponentialBackoff :: "int \<Rightarrow> RetryPolicy" where
  "ExponentialBackoff delay status = Some (wrap64 (delay * 2 ^ IterNumber status))"

definition Concat :: "RetryPolicy \<Rightarrow> RetryPolicy \<Rightarrow> RetryPolicy" where
  "Concat p1 p2 status =
     (case p1 status of
        None \<Rightarrow> None
      | Some d1 \<Rightarrow> (case p2 status of None \<Rightarrow> None | Some d2 \<Rightarrow> Some (max d1 d2)))"

definition ApplyPolicy :: "RetryPolicy \<Rightarrow> RetryStatus \<Rightarrow> RetryStatus" where
  "ApplyPolicy policy status =
     (let previousDelay = policy status in
      \<lparr>IterNumber = IterNumber status + 1,
       CumulativeDelay = CumulativeDelay status + (case previousDelay of None \<Rightarrow> 0 | Some d \<Rightarrow> d),
       PreviousDelay = previousDelay\<rparr>)"

text \<open>
  \<open>IOE.Retrying policy action check\<close>: run the action; if \<open>check\<close> asks for a retry,
  apply the policy to the status; without a delay the result of the action is returned,
  otherwise the loop sleeps for the delay and runs the action again with the new status.
  The loop may run forever (a policy without limit and an action that always fails), so it
  is a partial function; it returns, with the result, the log of what it did.
\<close>

datatype event = Attempt nat | Sleep int

partial_function (option) Retrying_from ::
  "RetryPolicy \<Rightarrow> (RetryStatus \<Rightarrow> 'a) \<Rightarrow> ('a \<Rightarrow> bool) \<Rightarrow> RetryStatus \<Rightarrow> event list
     \<Rightarrow> (event list \<times> 'a) option" where
  "Retrying_from policy action check status log =
     (let a = action status;
          log1 = log @ [Attempt (IterNumber status)]
      in if check a
         then
           (let status1 = ApplyPolicy policy status in
            case PreviousDelay status1 of
              None \<Rightarrow> Some (log1, a)
            | Some delay \<Rightarrow> Retrying_from policy action check status1 (log1 @ [Sleep delay]))
         else Some (log1, a))"

declare Retrying_from.simps [code]

definition Retrying ::
  "RetryPolicy \<Rightarrow> (RetryStatus \<Rightarrow> 'a) \<Rightarrow> ('a \<Rightarrow> bool) \<Rightarrow> (event list \<times> 'a) option" where
  "Retrying policy action check = Retrying_from policy action check DefaultRetryStatus []"

text \<open>
  \<open>DownloadFile\<close>. The world it runs in: the checksum of the descriptor, whether the
  scope is cancelled when the function starts, whether \<open>verifyChecksum\<close> accepts the file
  on disk, the scope as polled by attempt \<open>i\<close> (\<open>cancelled i\<close>), and what the request and
  the copy of attempt \<open>i\<close> yield (\<open>http i\<close>: an error, or the number of bytes copied).
  \<open>MaxRetries\<close> is the validated configuration value (0 to 10), so that
  \<open>uint(MaxRetries)\<close> is the same number.

  The function first takes \<open>f.checksum[:12]\<close> for its span, which panics when the
  checksum has fewer than 12 bytes: the function panics or returns.
\<close>

datatype 'a outcome = Panic string | Return 'a

record DownloadEnv =
  checksum :: string
  cancelled_at_start :: bool
  SkipExists :: bool
  checksum_ok :: bool
  expectedSize :: int
  MaxRetries :: nat
  cancelled :: "nat \<Rightarrow> bool"
  http :: "nat \<Rightarrow> error + int"

definition DownloadFile_policy :: "DownloadEnv \<Rightarrow> RetryPolicy" where
  "DownloadFile_policy env = Concat (LimitRetries (MaxRetries env)) (ExponentialBackoff (5 * 1000000))"

definition DownloadFile_action :: "DownloadEnv \<Rightarrow> RetryStatus \<Rightarrow> error + int" where
  "DownloadFile_action env status =
     (if cancelled env (IterNumber status) then Inl Canceled else http env (IterNumber status))"

definition DownloadFile_check :: "error + int \<Rightarrow> bool" where
  "DownloadFile_check r = (case r of Inl err \<Rightarrow> True | Inr n \<Rightarrow> False)"

definition DownloadFile :: "DownloadEnv \<Rightarrow> (event list \<times> (error + int)) outcome option" where
  "DownloadFile env =
     (if length (checksum env) < 12 then Some (Panic ''slice bounds out of range'')
      else if cancelled_at_start env then Some (Return ([], Inl Canceled))
      else if SkipExists env \<and> checksum_ok env then Some (Return ([], Inr (expectedSize env)))
      else map_option Return
             (Retrying (DownloadFile_policy env) (DownloadFile_action env) DownloadFile_check))"

section \<open>The archive unpacker (package extract, in logger.go)\<close>

subsection \<open>Paths (package path/filepath on Unix)\<close>

text \<open>The elements of a path between its separators.\<close>

fun split_slash :: "string \<Rightarrow> string list" where
  "split_slash [] = [[]]"
| "split_slash (c # cs) =
     (if c = CHR ''/'' then [] # split_slash cs
      else (case split_slash cs of [] \<Rightarrow> [[c]] | x # xs \<Rightarrow> (c # x) # xs))"

definition is_rooted :: "string \<Rightarrow> bool" where
  "is_rooted p = (case p of [] \<Rightarrow> False | c # cs \<Rightarrow> c = CHR ''/'')"

text \<open>
  \<open>filepath.Clean\<close> works through the elements and keeps the cleaned path as a stack:
  an empty element and \<open>.\<close> are dropped; \<open>..\<close> removes the element before it, unless
  there is none that can be removed (then it is dropped in a rooted path and kept in a
  relative one); any other element is appended. An empty result is \<open>.\<close>.
\<close>

definition clean_step :: "bool \<Rightarrow> string list \<Rightarrow> string \<Rightarrow> string list" where
  "clean_step rooted out e =
     (if e = [] \<or> e = ''.'' then out
      else if e = ''..'' then
        (if out \<noteq> [] \<and> last out \<noteq> ''..'' then butlast out
         else if rooted then out
         else out @ [''..''])
      else out @ [e])"

definition clean_elems :: "string \<Rightarrow> string list" where
  "clean_elems p = foldl (clean_step (is_rooted p)) [] (split_slash p)"

definition Clean :: "string \<Rightarrow> string" where
  "Clean p =
     (let s = (if is_rooted p then ''/'' else []) @ Join (clean_elems p) ''/''
      in if s = [] then ''.'' else s)"

text \<open>\<open>filepath.Join\<close>: empty elements are ignored, the rest is joined and cleaned.\<close>

definition filepath_Join :: "string list \<Rightarrow> string" where
  "filepath_Join elems =
     (let es = filter (\<lambda>e. e \<noteq> []) elems in if es = [] then [] else Clean (Join es ''/''))"

text \<open>\<open>filepath.Dir\<close>: the path up to its last separator, cleaned.\<close>

definition filepath_Dir :: "string \<Rightarrow> string" where
  "filepath_Dir p = Clean (rev (dropWhile (\<lambda>c. c \<noteq> CHR ''/'') (rev p)))"

text \<open>The name of a directory entry: the last element of its path.\<close>

definition entry_name :: "string \<Rightarrow> string" where
  "entry_name p = last (split_slash p)"

text \<open>
  A path remains under a directory when both are rooted or both relative, the cleaned
  elements of the directory are the first elements of the cleaned path, and no element
  \<open>..\<close> follows them.
\<close>

definition under :: "string \<Rightarrow> string \<Rightarrow> bool" where
  "under dir p =
     (is_rooted p = is_rooted dir \<and>
      take (length (clean_elems dir)) (clean_elems p) = clean_elems dir \<and>
      ''..'' \<notin> set (drop (length (clean_elems dir)) (clean_elems p)))"

subsection \<open>Files and archives\<close>

text \<open>
  The contents of a file are plain bytes or a ZIP archive: the list of its entries, each with
  its name and, for a file entry, its contents (a directory entry has none). An archive
  holds archives to any finite depth. A file system is the list of its paths, cleaned, each
  a directory or a file; the working directory \<open>.\<close> and the root \<open>/\<close> are directories.
\<close>

datatype content = Bytes string | ZipArchive "(string \<times> content option) list"

datatype fnode = Directory | File content

type_synonym filesystem = "(string \<times> fnode) list"

definition stat :: "filesystem \<Rightarrow> string \<Rightarrow> fnode option" where
  "stat fs p = (if p = ''.'' \<or> p = ''/'' then Some Directory else map_of fs p)"

text \<open>The path itself and the directories above it, the outermost first.\<close>

definition ancestors :: "string \<Rightarrow> string list" where
  "ancestors p =
     map (\<lambda>k. (if is_rooted p then ''/'' else []) @ Join (take k (clean_elems p)) ''/'')
       [1..<Suc (length (clean_elems p))]"

text \<open>
  \<open>os.MkdirAll\<close>: every missing directory on the way is created; a file on the way is an
  error. The functions that change the file system return the new file system and the
  error, if any.
\<close>

fun mkdirs :: "filesystem \<Rightarrow> string list \<Rightarrow> filesystem \<times> error option" where
  "mkdirs fs [] = (fs, None)"
| "mkdirs fs (d # ds) =
     (case stat fs d of
        Some Directory \<Rightarrow> mkdirs fs ds
      | Some (File c) \<Rightarrow> (fs, Some (IOError ''not a directory''))
      | None \<Rightarrow> mkdirs (AList.update d Directory fs) ds)"

definition MkdirAll :: "filesystem \<Rightarrow> string \<Rightarrow> filesystem \<times> error option" where
  "MkdirAll fs p = mkdirs fs (ancestors p)"

text \<open>\<open>os.Create\<close>: the file exists afterwards and is empty.\<close>

definition os_Create :: "filesystem \<Rightarrow> string \<Rightarrow> filesystem \<times> error option" where
  "os_Create fs p =
     (case stat fs p of
        Some Directory \<Rightarrow> (fs, Some (IOError ''is a directory''))
      | _ \<Rightarrow>
          (case stat fs (filepath_Dir p) of
             Some Directory \<Rightarrow> (AList.update p (File (Bytes [])) fs, None)
           | _ \<Rightarrow> (fs, Some (IOError ''no such file or directory''))))"

text \<open>
  \<open>os.Remove\<close> of a file. \<open>removable\<close> says for which paths the operating system
  permits it.
\<close>

definition os_Remove :: "(string \<Rightarrow> bool) \<Rightarrow> filesystem \<Rightarrow> string \<Rightarrow> filesystem \<times> error option" where
  "os_Remove removable fs p =
     (case map_of fs p of
        Some (File c) \<Rightarrow>
          if removable p then (AList.delete p fs, None)
          else (fs, Some (IOError ''permission denied''))
      | Some Directory \<Rightarrow> (fs, Some (IOError ''is a directory''))
      | None \<Rightarrow> (fs, Some (IOError ''no such file or directory'')))"

text \<open>\<open>zip.OpenReader\<close>: the entries of the archive at the path.\<close>

definition zip_OpenReader :: "filesystem \<Rightarrow> string \<Rightarrow> error + (string \<times> content option) list" where
  "zip_OpenReader fs p =
     (case map_of fs p of
        Some (File (ZipArchive entries)) \<Rightarrow> Inr entries
      | Some (File (Bytes b)) \<Rightarrow> Inl (IOError ''zip: not a valid zip file'')
      | Some Directory \<Rightarrow> Inl (IOError ''is a directory'')
      | None \<Rightarrow> Inl (IOError ''no such file or directory''))"

subsection \<open>Extraction\<close>

text \<open>
  The body of the loop of \<open>extractZipToDir\<close> for one entry \<open>f\<close> of the archive at
  \<open>zipPath\<close>, whose entries are \<open>entries\<close>. The reader reads the data of an entry from
  the archive's file when the entry is opened and copied: that fails once the file is no
  longer the archive, which is the case after an entry has been written over it.
\<close>

definition destPath :: "string \<Rightarrow> string \<Rightarrow> string" where
  "destPath destDir name = filepath_Join [destDir, name]"

definition extractEntry ::
  "string \<Rightarrow> (string \<times> content option) list \<Rightarrow> string \<Rightarrow> filesystem
     \<Rightarrow> string \<times> content option \<Rightarrow> filesystem \<times> error option" where
  "extractEntry zipPath entries destDir fs f =
     (let dest = destPath destDir (fst f) in
      case snd f of
        None \<Rightarrow>
          (case MkdirAll fs dest of
             (fs1, Some err) \<Rightarrow> (fs1, Some (Wrapped ''failed to create directory'' err))
           | (fs1, None) \<Rightarrow> (fs1, None))
      | Some c \<Rightarrow>
          (case MkdirAll fs (filepath_Dir dest) of
             (fs1, Some err) \<Rightarrow> (fs1, Some (Wrapped ''failed to create parent directory'' err))
           | (fs1, None) \<Rightarrow>
               if map_of fs1 zipPath \<noteq> Some (File (ZipArchive entries))
               then (fs1, Some (Wrapped ''failed to open file in zip'' (IOError ''unexpected EOF'')))
               else
                 (case os_Create fs1 dest of
                    (fs2, Some err) \<Rightarrow> (fs2, Some (Wrapped ''failed to create file'' err))
                  | (fs2, None) \<Rightarrow>
                      if dest = zipPath \<and> c \<noteq> Bytes []
                      then (fs2, Some (Wrapped ''failed to copy file'' (IOError ''unexpected EOF'')))
                      else (AList.update dest (File c) fs2, None))))"

fun extractEntries ::
  "string \<Rightarrow> (string \<times> content option) list \<Rightarrow> string \<Rightarrow> filesystem
     \<Rightarrow> (string \<times> content option) list \<Rightarrow> filesystem \<times> error option" where
  "extractEntries zipPath entries destDir fs [] = (fs, None)"
| "extractEntries zipPath entries destDir fs (f # fs_rest) =
     (case extractEntry zipPath entries destDir fs f of
        (fs1, Some err) \<Rightarrow> (fs1, Some err)
      | (fs1, None) \<Rightarrow> extractEntries zipPath entries destDir fs1 fs_rest)"

definition extractZipToDir :: "filesystem \<Rightarrow> string \<Rightarrow> string \<Rightarrow> filesystem \<times> error option" where
  "extractZipToDir fs zipPath destDir =
     (case zip_OpenReader fs zipPath of
        Inl err \<Rightarrow> (fs, Some (Wrapped (''failed to open zip '' @ zipPath) err))
      | Inr entries \<Rightarrow> extractEntries zipPath entries destDir fs entries)"

text \<open>
  \<open>findAllZipFilesRecursive\<close>: \<open>filepath.WalkDir\<close> visits the directory and everything
  below it, the entries of each directory in the order of their names, which is the
  lexicographic order of the lists of path elements.
\<close>

definition is_zip_name :: "string \<Rightarrow> bool" where
  "is_zip_name name = (let l = ToLower name in drop (length l - 4) l = ''.zip'')"

definition findAllZipFilesRecursive :: "filesystem \<Rightarrow> string \<Rightarrow> error + string list" where
  "findAllZipFilesRecursive fs dir =
     (case stat fs dir of
        None \<Rightarrow> Inl (IOError ''no such file or directory'')
      | Some n \<Rightarrow>
          Inr (sort_key clean_elems
                 (map fst (filter (\<lambda>(p, n). under dir p \<and> n \<noteq> Directory \<and> is_zip_name (entry_name p))
                             fs))))"

text \<open>
  \<open>extractAllZipsInDir\<close>. The inner loop over the archives found by one walk is
  \<open>extractPass\<close>; \<open>ctx k 0\<close> is the poll of the cancellation scope at the start of walk
  \<open>k\<close> and \<open>ctx k (Suc j)\<close> the poll before archive \<open>j\<close> of that walk. The outer loop has
  no bound in the source: it is given fuel (one unit for each walk) and returns nothing
  when the fuel runs out.
\<close>

record Extractor =
  DeleteAfter :: bool
  removable :: "string \<Rightarrow> bool"

fun extractPass ::
  "Extractor \<Rightarrow> (nat \<Rightarrow> bool) \<Rightarrow> nat \<Rightarrow> filesystem \<Rightarrow> string list \<Rightarrow> filesystem \<times> error option" where
  "extractPass e ctxk j fs [] = (fs, None)"
| "extractPass e ctxk j fs (zipFile # zipFiles) =
     (if ctxk (Suc j) then (fs, Some Canceled)
      else
        let destDir = filepath_Dir zipFile in
        case extractZipToDir fs zipFile destDir of
          (fs1, Some err) \<Rightarrow> (fs1, Some err)
        | (fs1, None) \<Rightarrow>
            let fs2 = (if DeleteAfter e then fst (os_Remove (removable e) fs1 zipFile) else fs1)
            in extractPass e ctxk (Suc j) fs2 zipFiles)"

fun extractAllZipsInDir ::
  "nat \<Rightarrow> Extractor \<Rightarrow> (nat \<Rightarrow> nat \<Rightarrow> bool) \<Rightarrow> nat \<Rightarrow> string \<Rightarrow> filesystem
     \<Rightarrow> (filesystem \<times> error option) option" where
  "extractAllZipsInDir 0 e ctx k dir fs = None"
| "extractAllZipsInDir (Suc fuel) e ctx k dir fs =
     (if ctx k 0 then Some (fs, Some Canceled)
      else
        case findAllZipFilesRecursive fs dir of
          Inl err \<Rightarrow> Some (fs, Some err)
        | Inr zipFiles \<Rightarrow>
            if zipFiles = [] then Some (fs, None)
            else
              (case extractPass e (ctx k) 0 fs zipFiles of
                 (fs1, Some err) \<Rightarrow> Some (fs1, Some err)
               | (fs1, None) \<Rightarrow> extractAllZipsInDir fuel e ctx (Suc k) dir fs1))"

section \<open>The weight of a file system\<close>

text \<open>
  For the termination of the fixpoint: the weight of a file is the size of its contents,
  which counts the archives nested in it; a directory weighs nothing. \<open>weight_at\<close> is
  the weight of what a path holds and \<open>entries_weight\<close> that of the file entries of an
  archive.
\<close>

definition node_weight :: "fnode \<Rightarrow> nat" where
  "node_weight n = (case n of Directory \<Rightarrow> 0 | File c \<Rightarrow> size c)"

definition fs_weight :: "filesystem \<Rightarrow> nat" where
  "fs_weight fs = sum_list (map (\<lambda>x. node_weight (snd x)) fs)"

definition weight_at :: "filesystem \<Rightarrow> string \<Rightarrow> nat" where
  "weight_at fs p = (case map_of fs p of None \<Rightarrow> 0 | Some n \<Rightarrow> node_weight n)"

definition entries_weight :: "(string \<times> content option) list \<Rightarrow> nat" where
  "entries_weight es = sum_list (map (\<lambda>f. case snd f of None \<Rightarrow> 0 | Some c \<Rightarrow> size c) es)"

section \<open>Sample inputs and the words of the specification\<close>

text \<open>Small XML trees and file systems on which the theorems below are instantiated.\<close>

definition elem :: "string \<Rightarrow> Node list \<Rightarrow> Node" where
  "elem name cs = ElementNode [] name [] cs"

definition attr :: "string \<Rightarrow> string \<Rightarrow> Attr" where
  "attr k v = \<lparr>Space = [], Local = k, Value = v\<rparr>"

definition document_id :: "string \<Rightarrow> string \<Rightarrow> string \<Rightarrow> Node" where
  "document_id c d k =
     elem ''document-id''
       [elem ''country'' [TextNode c], elem ''doc-number'' [TextNode d], elem ''kind'' [TextNode k]]"

definition classification :: "string \<Rightarrow> string \<Rightarrow> Node" where
  "classification scheme symbol =
     elem ''patent-classification''
       [ElementNode [] ''classification-scheme'' [attr ''scheme'' scheme] [],
        elem ''classification-symbol'' [TextNode symbol]]"

definition exchange_document :: "string \<Rightarrow> string \<Rightarrow> string \<Rightarrow> string \<Rightarrow> Node list \<Rightarrow> Node" where
  "exchange_document c d k s cs =
     ElementNode ''exch'' ''exchange-document''
       [attr ''country'' c, attr ''doc-number'' d, attr ''kind'' k, attr ''status'' s] cs"

text \<open>Two CPCI classifications with the same symbol, one CPCI with another, one CPCNO.\<close>

definition sample_cpc :: Node where
  "sample_cpc =
     exchange_document ''EP'' ''1000'' ''A1'' ''A''
       [elem ''bibliographic-data''
          [classification ''CPCI'' ''H04L 9/00'',
           classification ''CPCNO'' ''G06F 1/00'',
           classification ''CPCI'' '' H04L 9/00 '',
           classification ''CPCI'' ''A01B 1/00'']]"

text \<open>
  Two citations: the first has an empty country, doc-number and kind, the second is
  US1234A1 with the category Y under \<open>rel-passage\<close> and, after it, the category X as a
  child.
\<close>

definition sample_citations :: Node where
  "sample_citations =
     exchange_document ''EP'' ''1000'' ''A1'' ''A''
       [elem ''bibliographic-data''
          [elem ''references-cited''
             [elem ''citation''
                [elem ''patcit'' [document_id [] [] []], elem ''category'' [TextNode ''A'']],
              elem ''citation''
                [elem ''patcit'' [document_id ''US'' ''1234'' ''A1''],
                 elem ''rel-passage'' [elem ''category'' [TextNode '' Y '']],
                 elem ''category'' [TextNode ''X'']]]]]"

text \<open>
  A family with the document itself (docdb), one member in another format, and the
  members US2B1 (twice) and DE3A1 (docdb).
\<close>

definition publication_reference :: "string \<Rightarrow> string \<Rightarrow> string \<Rightarrow> string \<Rightarrow> Node" where
  "publication_reference fmt c d k =
     ElementNode [] ''publication-reference'' [attr ''data-format'' fmt] [document_id c d k]"

definition sample_family :: Node where
  "sample_family =
     exchange_document ''EP'' ''1000'' ''A1'' ''A''
       [elem ''patent-family''
          [elem ''family-member''
             [publication_reference ''docdb'' ''EP'' ''1000'' ''A1'',
              publication_reference ''epodoc'' ''EP'' ''19991000'' ''A1''],
           elem ''family-member'' [publication_reference ''docdb'' ''US'' ''2'' ''B1''],
           elem ''family-member'' [publication_reference ''docdb'' ''DE'' ''3'' ''A1''],
           elem ''family-member'' [publication_reference ''docdb'' ''US'' ''2'' ''B1'']]]"

text \<open>
  The words of the specification about one exchange-document and one
  \<open>patent-classification\<close> node: the four required attributes are not empty; the node
  has no \<open>classification-scheme\<close> child with a non-empty \<open>scheme\<close> attribute, or no
  \<open>classification-symbol\<close> child.
\<close>

definition has_required_attributes :: "Node \<Rightarrow> bool" where
  "has_required_attributes node =
     (SelectAttr node ''country'' \<noteq> [] \<and> SelectAttr node ''doc-number'' \<noteq> [] \<and>
      SelectAttr node ''kind'' \<noteq> [] \<and> SelectAttr node ''status'' \<noteq> [])"

definition lacks_scheme_or_symbol :: "Node \<Rightarrow> bool" where
  "lacks_scheme_or_symbol n =
     (filter (\<lambda>s. SelectAttr s ''scheme'' \<noteq> []) (find_children ''classification-scheme'' n) = [] \<or>
      find_children ''classification-symbol'' n = [])"

text \<open>
  A classification without a \<open>classification-scheme\<close> child, a document that has it
  next to a complete CPCI classification, and a file with two documents, the second being
  that one.
\<close>

definition classification_without_scheme :: Node where
  "classification_without_scheme =
     elem ''patent-classification'' [elem ''classification-symbol'' [TextNode ''H04L 9/00'']]"

definition sample_defective :: Node where
  "sample_defective =
     exchange_document ''EP'' ''2000'' ''B1'' ''A''
       [elem ''bibliographic-data''
          [classification ''CPCI'' ''A01B 1/00'', classification_without_scheme]]"

definition xml_file :: "Node list \<Rightarrow> XmlSource" where
  "xml_file docs =
     \<lparr>OpenErr = None, StatErr = None,
      Parsed = Inr (DocumentNode [elem ''exchange-documents'' docs])\<rparr>"

definition initial_state :: ParseState where
  "initial_state =
     \<lparr>csv_rows = [[''patent_id'', ''status'', ''cpc_list'', ''citations'', ''family_patents'']],
      writerErr = None, errChan = None, xmlFilesFailed = 0, xmlFilesSuccess = 0,
      recordsTotal = 0, processedFiles = 0\<rparr>"

text \<open>A document without a status.\<close>

definition sample_without_status :: Node where
  "sample_without_status = exchange_document ''EP'' ''3000'' ''A1'' [] []"

text \<open>
  For the retry loop: what attempt \<open>i\<close> of a download yields, and the log of a loop that
  ends with attempt \<open>n\<close>, each earlier attempt being followed by a sleep of 5 ms times
  \<open>2 ^ i\<close> (in nanoseconds).
\<close>

definition attempt_result :: "DownloadEnv \<Rightarrow> nat \<Rightarrow> error + int" where
  "attempt_result env i = (if cancelled env i then Inl Canceled else http env i)"

definition log_from :: "nat \<Rightarrow> nat \<Rightarrow> event list" where
  "log_from i n = concat (map (\<lambda>j. [Attempt j, Sleep (5000000 * 2 ^ j)]) [i..<n]) @ [Attempt n]"

definition retry_log :: "nat \<Rightarrow> event list" where
  "retry_log n = log_from 0 n"

text \<open>
  A download with three retries whose first two attempts meet status 500 and whose third
  copies 100 bytes; and one whose requests all meet status 500 and whose scope is cancelled
  after the first attempt.
\<close>

definition sample_download :: DownloadEnv where
  "sample_download =
     \<lparr>checksum = ''da39a3ee5e6b4b0d3255bfef95601890afd80709'',
      cancelled_at_start = False, SkipExists = True, checksum_ok = False, expectedSize = 100,
      MaxRetries = 3, cancelled = (\<lambda>i. False),
      http = (\<lambda>i. if i < 2 then Inl (BadStatus 500) else Inr 100)\<rparr>"

definition sample_cancelled_download :: DownloadEnv where
  "sample_cancelled_download =
     \<lparr>checksum = ''da39a3ee5e6b4b0d3255bfef95601890afd80709'',
      cancelled_at_start = False, SkipExists = True, checksum_ok = False, expectedSize = 100,
      MaxRetries = 3, cancelled = (\<lambda>i. 1 \<le> i),
      http = (\<lambda>i. Inl (BadStatus 500))\<rparr>"

text \<open>
  An archive in \<open>data/a\<close> with an entry whose name climbs out of the directory it is
  extracted to.
\<close>

definition sample_slip_fs :: filesystem where
  "sample_slip_fs =
     [(''data'', Directory), (''data/a'', Directory),
      (''data/a/evil.zip'',
       File (ZipArchive [(''../../evil.txt'', Some (Bytes ''boo'')),
                         (''sub/ok.xml'', Some (Bytes ''<ok/>''))]))]"

text \<open>
  A directory with one archive that holds one XML file, before and after a walk that keeps
  the archive; an extractor that keeps the archives it has extracted and one that deletes
  them; a scope that is never cancelled.
\<close>

definition sample_nested_fs :: filesystem where
  "sample_nested_fs =
     [(''d'', Directory),
      (''d/inner.zip'', File (ZipArchive [(''a.xml'', Some (Bytes ''<a/>''))]))]"

definition sample_extracted_fs :: filesystem where
  "sample_extracted_fs =
     [(''d'', Directory),
      (''d/inner.zip'', File (ZipArchive [(''a.xml'', Some (Bytes ''<a/>''))])),
      (''d/a.xml'', File (Bytes ''<a/>''))]"

definition keeping :: Extractor where
  "keeping = \<lparr>DeleteAfter = False, removable = (\<lambda>p. True)\<rparr>"

definition deleting :: Extractor where
  "deleting = \<lparr>DeleteAfter = True, removable = (\<lambda>p. True)\<rparr>"

definition never_cancelled :: "nat \<Rightarrow> nat \<Rightarrow> bool" where
  "never_cancelled k j = False"

section \<open>The file-size parser\<close>

text \<open>
  A size without a decimal part has an empty second group, for which \<open>parseInt\<close> yields
  nothing; \<open>Sequence2\<close> then yields nothing as well, and the size is 0 whatever the integer
  part and the unit are.
\<close>

lemma parseFileSize_without_decimal:
  assumes "size_submatch (TrimSpace s) = Some (integerPart, [], unit)"
  shows "parseFileSize s = 0"
  using assms by (simp add: parseFileSize_def Let_def parseInt_def Sequence2_def split: option.splits)

lemma go_div_zero: "go_div 0 b = 0"
  by (simp add: go_div_def wrap64_def)

text \<open>A unit that \<open>getUnitMultiplier\<close> does not know gives the size 0.\<close>

lemma parseFileSize_unknown_unit:
  assumes "size_submatch (TrimSpace s) = Some (integerPart, decimalPart, unit)"
    and "getUnitMultiplier (ToUpper unit) = 0"
  shows "parseFileSize s = 0"
  using assms
  by (simp add: parseFileSize_def Let_def Sequence2_def go_div_zero wrap64_def split: option.splits)

text \<open>
  C9. The file-size parser on the five inputs of the specification: \<open>1.5 GB\<close> gives
  1610612736, \<open>2,5 kb\<close> gives 2560, \<open>xyz\<close> and the empty string give 0; but \<open>1024\<close>,
  which has no decimal part, gives 0 and not 1024.
\<close>

theorem parseFileSize_examples:
  "parseFileSize ''1.5 GB'' = 1610612736 \<and>
   parseFileSize ''1024'' = 0 \<and>
   parseFileSize ''2,5 kb'' = 2560 \<and>
   parseFileSize ''xyz'' = 0 \<and>
   parseFileSize '''' = 0"
  by code_simp

section \<open>The timeout of the HTTP client\<close>

lemma FetchFiles_timeout_small:
  assumes "0 < t" and "t \<le> 9223372036"
  shows "FetchFiles_timeout t = t * Second"
proof -
  have "t * 1000000000 < 2 ^ 63" using assms by simp
  moreover have "0 \<le> t * 1000000000" using assms by simp
  ultimately have "wrap64 (t * 1000000000) = t * 1000000000"
    unfolding wrap64_def by (simp add: mod_pos_pos_trivial)
  then show ?thesis using assms by (simp add: FetchFiles_timeout_def Second_def)
qed

lemma FetchFiles_timeout_not_positive:
  "t \<le> 0 \<Longrightarrow> FetchFiles_timeout t = 30 * Second"
  by (simp add: FetchFiles_timeout_def)

text \<open>
  C5. With the timeout of 30 seconds that the configuration has by default, a duration of
  30000000000 nanoseconds, the client's timeout is not 30 seconds: the duration is
  multiplied by \<open>time.Second\<close> once more and wraps around to a negative duration.
\<close>

theorem FetchFiles_timeout_of_default:
  "FetchFiles_timeout (30 * Second) = - 6893488147419103232 \<and>
   FetchFiles_timeout (30 * Second) \<noteq> 30 * Second"
  by (simp add: FetchFiles_timeout_def Second_def wrap64_def)

section \<open>The rows of the record extractor\<close>

lemma exchangeDocumentFromNode_Inr:
  assumes "exchangeDocumentFromNode node = Inr row"
  shows "row = [patentID (documentFromNode node), Status (documentFromNode node),
                cpcStr (documentFromNode node), citationsStr (documentFromNode node),
                familyStr (documentFromNode node)]"
  using assms by (auto simp: exchangeDocumentFromNode_def Let_def split: if_splits)

lemma set_cpc_fold:
  "set (fold (\<lambda>pc s. if Scheme pc = ''CPCI'' then List.insert (ClassificationSymbol pc) s else s)
          pcs acc)
     = set acc \<union> {ClassificationSymbol pc |pc. pc \<in> set pcs \<and> Scheme pc = ''CPCI''}"
  by (induction pcs arbitrary: acc) auto

lemma distinct_cpc_fold:
  "distinct acc \<Longrightarrow>
   distinct (fold (\<lambda>pc s. if Scheme pc = ''CPCI'' then List.insert (ClassificationSymbol pc) s
                           else s) pcs acc)"
  by (induction pcs arbitrary: acc) auto

lemma strict_sorted_sort: "distinct xs \<Longrightarrow> sorted_wrt (<) (sort (xs :: string list))"
  by (simp add: strict_sorted_iff)

text \<open>
  C7. In every row that \<open>exchangeDocumentFromNode\<close> produces, \<open>cpc_list\<close> is a list of
  strings joined by \<open>;\<close> that is strictly sorted in the order of Go's strings (so it has no
  duplicates) and whose elements are exactly the symbols of the document's
  classifications with the scheme \<open>CPCI\<close>.
\<close>

theorem cpc_list_sorted_unique_CPCI:
  assumes "exchangeDocumentFromNode node = Inr row"
  shows "\<exists>l. cpc_list row = Join l '';'' \<and> sorted_wrt (<) l \<and>
             set l = {ClassificationSymbol pc |pc.
                        pc \<in> set (classifications node) \<and> Scheme pc = ''CPCI''}"
proof -
  let ?d = "documentFromNode node"
  let ?l = "sort (cpcSet ?d)"
  have row: "cpc_list row = cpcStr ?d"
    using exchangeDocumentFromNode_Inr [OF assms] by simp
  have "cpcStr ?d = Join ?l '';''"
    by (simp add: cpcStr_def)
  moreover have "sorted_wrt (<) ?l"
    by (rule strict_sorted_sort) (simp add: cpcSet_def distinct_cpc_fold)
  moreover have "set ?l = {ClassificationSymbol pc |pc.
                             pc \<in> set (classifications node) \<and> Scheme pc = ''CPCI''}"
    by (simp add: cpcSet_def set_cpc_fold documentFromNode_def)
  ultimately show ?thesis using row by metis
qed

theorem cpc_list_sorted_unique_CPCI_witness:
  "exchangeDocumentFromNode sample_cpc
     = Inr [''EP1000A1'', ''A'', ''A01B 1/00;H04L 9/00'', [], []] \<and>
   (\<exists>l. cpc_list [''EP1000A1'', ''A'', ''A01B 1/00;H04L 9/00'', [], []] = Join l '';'' \<and>
        sorted_wrt (<) l \<and>
        set l = {ClassificationSymbol pc |pc.
                   pc \<in> set (classifications sample_cpc) \<and> Scheme pc = ''CPCI''})"
proof -
  have row: "exchangeDocumentFromNode sample_cpc
               = Inr [''EP1000A1'', ''A'', ''A01B 1/00;H04L 9/00'', [], []]"
    by code_simp
  show ?thesis
    by (rule conjI [OF row cpc_list_sorted_unique_CPCI [OF row]])
qed

lemma set_family_inner:
  "set (fold (\<lambda>pr s. if DataFormat pr = ''docdb''
                      then (if fid pr \<noteq> pid then List.insert (fid pr) s else s)
                      else s) prs acc)
     = set acc \<union> {fid pr |pr. pr \<in> set prs \<and> DataFormat pr = ''docdb'' \<and> fid pr \<noteq> pid}"
  by (induction prs arbitrary: acc) auto

lemma distinct_family_inner:
  "distinct acc \<Longrightarrow>
   distinct (fold (\<lambda>pr s. if DataFormat pr = ''docdb''
                           then (if fid pr \<noteq> pid then List.insert (fid pr) s else s)
                           else s) prs acc)"
  by (induction prs arbitrary: acc) auto

lemma set_family_outer:
  "set (fold (\<lambda>fm s. fold (\<lambda>pr s. if DataFormat pr = ''docdb''
                                    then (if fid pr \<noteq> pid then List.insert (fid pr) s else s)
                                    else s) (PublicationReferences fm) s) fms acc)
     = set acc \<union> {fid pr |pr fm. fm \<in> set fms \<and> pr \<in> set (PublicationReferences fm) \<and>
                                   DataFormat pr = ''docdb'' \<and> fid pr \<noteq> pid}"
  by (induction fms arbitrary: acc) (auto simp: set_family_inner)

lemma distinct_family_outer:
  "distinct acc \<Longrightarrow>
   distinct (fold (\<lambda>fm s. fold (\<lambda>pr s. if DataFormat pr = ''docdb''
                                        then (if fid pr \<noteq> pid then List.insert (fid pr) s else s)
                                        else s) (PublicationReferences fm) s) fms acc)"
  by (induction fms arbitrary: acc) (auto simp: distinct_family_inner)

text \<open>
  C6. In every row, \<open>family_patents\<close> is a list of strings joined by \<open>;\<close> that is
  strictly sorted (so it has no duplicates); its elements are exactly the identifiers
  country + doc-number + kind of the publication references of the document's family
  members whose data format is \<open>docdb\<close>, without the row's own \<open>patent_id\<close>, which is
  never an element.
\<close>

theorem family_patents_sorted_unique_docdb:
  assumes "exchangeDocumentFromNode node = Inr row"
  shows "\<exists>l. family_patents row = Join l '';'' \<and> sorted_wrt (<) l \<and>
             set l = {fid pr |pr fm. fm \<in> set (familyMembers node) \<and>
                                     pr \<in> set (PublicationReferences fm) \<and>
                                     DataFormat pr = ''docdb''} - {patent_id row} \<and>
             patent_id row \<notin> set l"
proof -
  let ?d = "documentFromNode node"
  let ?l = "sort (familySet ?d)"
  have row: "family_patents row = familyStr ?d" "patent_id row = patentID ?d"
    using exchangeDocumentFromNode_Inr [OF assms] by simp_all
  have 1: "familyStr ?d = Join ?l '';''"
    by (simp add: familyStr_def)
  have 2: "sorted_wrt (<) ?l"
    by (rule strict_sorted_sort) (simp add: familySet_def distinct_family_outer)
  have 3: "set ?l = {fid pr |pr fm. fm \<in> set (familyMembers node) \<and>
                                    pr \<in> set (PublicationReferences fm) \<and>
                                    DataFormat pr = ''docdb''} - {patentID ?d}"
    by (auto simp: familySet_def set_family_outer documentFromNode_def)
  from 3 have 4: "patentID ?d \<notin> set ?l" by blast
  show ?thesis using row 1 2 3 4 by metis
qed

theorem family_patents_sorted_unique_docdb_witness:
  "exchangeDocumentFromNode sample_family = Inr [''EP1000A1'', ''A'', [], [], ''DE3A1;US2B1''] \<and>
   (\<exists>l. family_patents [''EP1000A1'', ''A'', [], [], ''DE3A1;US2B1''] = Join l '';'' \<and>
        sorted_wrt (<) l \<and>
        set l = {fid pr |pr fm. fm \<in> set (familyMembers sample_family) \<and>
                                pr \<in> set (PublicationReferences fm) \<and>
                                DataFormat pr = ''docdb''}
                - {patent_id [''EP1000A1'', ''A'', [], [], ''DE3A1;US2B1'']} \<and>
        patent_id [''EP1000A1'', ''A'', [], [], ''DE3A1;US2B1''] \<notin> set l)"
proof -
  have row: "exchangeDocumentFromNode sample_family
               = Inr [''EP1000A1'', ''A'', [], [], ''DE3A1;US2B1'']"
    by code_simp
  show ?thesis
    by (rule conjI [OF row family_patents_sorted_unique_docdb [OF row]])
qed

text \<open>
  C8. In every row, \<open>citations\<close> is made of the document's citations whose \<open>CitedID\<close> is
  not empty, in their order and without removing duplicates, each written as the
  identifier, a space and its categories joined by commas in parentheses, the whole joined
  by \<open>;\<close>. A citation with an empty identifier leaves no trace.
\<close>

theorem citations_nonempty_ids_in_order:
  assumes "exchangeDocumentFromNode node = Inr row"
  shows "citations_col row =
           Join (map (\<lambda>c. CitedID c @ '' ('' @ Join (Categories c) '','' @ '')'')
                   (filter (\<lambda>c. CitedID c \<noteq> []) (citations node)))
             '';''"
proof -
  let ?d = "documentFromNode node"
  have "concat (map (\<lambda>c. if CitedID c \<noteq> [] then [f c] else []) cs)
          = map f (filter (\<lambda>c. CitedID c \<noteq> []) cs)" for f :: "Citation \<Rightarrow> string" and cs
    by (induction cs) auto
  then have "citationsStr ?d =
               Join (map (\<lambda>c. CitedID c @ '' ('' @ Join (Categories c) '','' @ '')'')
                       (filter (\<lambda>c. CitedID c \<noteq> []) (Citations ?d))) '';''"
    by (simp add: citationsStr_def)
  moreover have "Citations ?d = citations node"
    by (simp add: documentFromNode_def)
  ultimately show ?thesis
    using exchangeDocumentFromNode_Inr [OF assms] by simp
qed

text \<open>
  The document of the specification's scenario: its first citation has an empty
  identifier, its second is US1234A1 with the categories X (a child, found first although
  it stands last) and Y (under \<open>rel-passage\<close>).
\<close>

theorem citations_nonempty_ids_in_order_witness:
  "citations sample_citations
     = [\<lparr>CitedID = [], Categories = [''A'']\<rparr>,
        \<lparr>CitedID = ''US1234A1'', Categories = [''X'', ''Y'']\<rparr>] \<and>
   exchangeDocumentFromNode sample_citations
     = Inr [''EP1000A1'', ''A'', [], ''US1234A1 (X,Y)'', []] \<and>
   citations_col [''EP1000A1'', ''A'', [], ''US1234A1 (X,Y)'', []] =
     Join (map (\<lambda>c. CitedID c @ '' ('' @ Join (Categories c) '','' @ '')'')
             (filter (\<lambda>c. CitedID c \<noteq> []) (citations sample_citations)))
       '';''"
proof -
  have cs: "citations sample_citations
              = [\<lparr>CitedID = [], Categories = [''A'']\<rparr>,
                 \<lparr>CitedID = ''US1234A1'', Categories = [''X'', ''Y'']\<rparr>]"
    by code_simp
  have row: "exchangeDocumentFromNode sample_citations
               = Inr [''EP1000A1'', ''A'', [], ''US1234A1 (X,Y)'', []]"
    by code_simp
  show ?thesis
    using cs row citations_nonempty_ids_in_order [OF row] by blast
qed

section \<open>Rejection of documents and files\<close>

lemma TraverseArray_isl: "isl (TraverseArray f xs) \<longleftrightarrow> (\<exists>x\<in>set xs. isl (f x))"
  by (induction xs) (auto split: sum.splits)

lemma TraverseArray_all_Inr:
  "(\<forall>x\<in>set xs. \<not> isl (f x)) \<Longrightarrow> TraverseArray f xs = Inr (map (\<lambda>x. projr (f x)) xs)"
  by (induction xs) (auto split: sum.splits)

lemma in_enumerate: "d \<in> set xs \<Longrightarrow> \<exists>i. (i, d) \<in> set (enumerate n xs)"
proof -
  assume "d \<in> set xs"
  then obtain k where "k < length xs" "xs ! k = d" by (auto simp: in_set_conv_nth)
  then have "(n + k, d) \<in> set (enumerate n xs)" by (simp add: in_set_enumerate_eq)
  then show ?thesis by blast
qed

lemma map_snd_enumerate_fun: "map (\<lambda>x. g (snd x)) (enumerate n xs) = map g xs"
  by (induction xs arbitrary: n) auto

lemma processSingleXML_rejects:
  assumes "Parsed src = Inr doc"
    and "d \<in> set (find_descendants ''exchange-document'' doc)"
    and "exchangeDocumentFromNode d = Inl e"
  shows "isl (processSingleXML ctx src)"
proof -
  obtain i where i: "(i, d) \<in> set (enumerate 0 (find_descendants ''exchange-document'' doc))"
    using in_enumerate [OF assms(2)] by blast
  have "isl ((\<lambda>(i, node). if ctx (3 + i) then Inl Canceled else exchangeDocumentFromNode node) (i, d))"
    using assms(3) by simp
  with i have "isl (TraverseArray (\<lambda>(i, node). if ctx (3 + i) then Inl Canceled else exchangeDocumentFromNode node)
                 (enumerate 0 (find_descendants ''exchange-document'' doc)))"
    unfolding TraverseArray_isl by blast
  then show ?thesis
    using assms(1) by (simp add: processSingleXML_def split: option.splits)
qed

lemma parse_worker_Inl:
  "isl (processSingleXML ctx src) \<Longrightarrow>
   csv_rows (parse_worker ctx path src st) = csv_rows st \<and>
   xmlFilesFailed (parse_worker ctx path src st) = xmlFilesFailed st + 1 \<and>
   xmlFilesSuccess (parse_worker ctx path src st) = xmlFilesSuccess st"
  by (auto simp: parse_worker_def record_failure_def split: sum.splits)

lemma write_records_ok:
  "writerErr st = None \<Longrightarrow> write_records st rows = (st\<lparr>csv_rows := csv_rows st @ rows\<rparr>, Inr rows)"
  by (induction rows arbitrary: st) (auto simp: safeWrite_def)

lemma parse_worker_Inr:
  "processSingleXML ctx src = Inr rows \<Longrightarrow> writerErr st = None \<Longrightarrow>
   csv_rows (parse_worker ctx path src st) = csv_rows st @ rows"
  by (simp add: parse_worker_def write_records_ok)

text \<open>
  C10. The rows of a file are computed for all its exchange-documents before one of them
  is written: when an exchange-document of the file is rejected, \<open>processSingleXML\<close>
  yields an error, the worker appends no row to the CSV and counts the file as failed.
\<close>

theorem rows_of_a_file_all_or_nothing:
  assumes "Parsed src = Inr doc"
    and "d \<in> set (find_descendants ''exchange-document'' doc)"
    and "exchangeDocumentFromNode d = Inl e"
  shows "isl (processSingleXML ctx src) \<and>
         csv_rows (parse_worker ctx path src st) = csv_rows st \<and>
         xmlFilesFailed (parse_worker ctx path src st) = xmlFilesFailed st + 1"
  using parse_worker_Inl [OF processSingleXML_rejects [OF assms]] processSingleXML_rejects [OF assms]
  by blast

theorem rows_of_a_file_all_or_nothing_witness:
  "isl (processSingleXML (\<lambda>p. False) (xml_file [sample_cpc, sample_without_status])) \<and>
   csv_rows (parse_worker (\<lambda>p. False) ''a.xml'' (xml_file [sample_cpc, sample_without_status])
               initial_state)
     = csv_rows initial_state \<and>
   xmlFilesFailed (parse_worker (\<lambda>p. False) ''a.xml''
                     (xml_file [sample_cpc, sample_without_status]) initial_state)
     = xmlFilesFailed initial_state + 1"
proof -
  have 1: "Parsed (xml_file [sample_cpc, sample_without_status])
             = Inr (DocumentNode [elem ''exchange-documents'' [sample_cpc, sample_without_status]])"
    by (simp add: xml_file_def)
  have 2: "sample_without_status
             \<in> set (find_descendants ''exchange-document''
                      (DocumentNode [elem ''exchange-documents'' [sample_cpc, sample_without_status]]))"
    by code_simp
  have 3: "exchangeDocumentFromNode sample_without_status = Inl MissingRequiredAttributes"
    by code_simp
  show ?thesis
    by (rule rows_of_a_file_all_or_nothing [OF 1 2 3])
qed

text \<open>When no document is rejected and the writer is sound, all rows are appended.\<close>

lemma lacks_scheme_or_symbol_Inl:
  assumes "lacks_scheme_or_symbol n"
  shows "isl (classificationFromNode n)"
proof (cases "find_children ''classification-scheme'' n")
  case Nil
  then show ?thesis by (simp add: classificationFromNode_def FindOne_def)
next
  case (Cons s ss)
  show ?thesis
  proof (cases "SelectAttr s ''scheme'' = []")
    case True
    with Cons show ?thesis by (simp add: classificationFromNode_def FindOne_def)
  next
    case False
    with Cons assms have "find_children ''classification-symbol'' n = []"
      by (simp add: lacks_scheme_or_symbol_def)
    with Cons False show ?thesis by (simp add: classificationFromNode_def FindOne_def Let_def)
  qed
qed

lemma classifications_empty:
  assumes "pc \<in> set (find_descendants ''patent-classification'' node)"
    and "lacks_scheme_or_symbol pc"
  shows "classifications node = []"
proof -
  have "isl (TraverseArray classificationFromNode (find_descendants ''patent-classification'' node))"
    unfolding TraverseArray_isl using assms lacks_scheme_or_symbol_Inl by blast
  then show ?thesis by (auto simp: classifications_def GetOrElse_def split: sum.splits)
qed

lemma exchangeDocumentFromNode_ok:
  "has_required_attributes node \<Longrightarrow>
   exchangeDocumentFromNode node =
     Inr [patentID (documentFromNode node), Status (documentFromNode node),
          cpcStr (documentFromNode node), citationsStr (documentFromNode node),
          familyStr (documentFromNode node)]"
  by (simp add: exchangeDocumentFromNode_def has_required_attributes_def Let_def)

lemma processSingleXML_ok:
  assumes "OpenErr src = None" "StatErr src = None" "Parsed src = Inr doc"
    and "\<forall>p. \<not> ctx p"
    and "\<forall>x\<in>set (find_descendants ''exchange-document'' doc). has_required_attributes x"
  shows "processSingleXML ctx src =
           Inr (map (\<lambda>x. projr (exchangeDocumentFromNode x)) (find_descendants ''exchange-document'' doc))"
proof -
  let ?f = "\<lambda>(i, node). if ctx (3 + i) then Inl Canceled else exchangeDocumentFromNode node"
  let ?xs = "enumerate 0 (find_descendants ''exchange-document'' doc)"
  have "\<forall>x\<in>set ?xs. \<not> isl (?f x)"
    using assms(4,5) by (auto simp: in_set_enumerate_eq exchangeDocumentFromNode_ok)
  then have "TraverseArray ?f ?xs = Inr (map (\<lambda>x. projr (?f x)) ?xs)"
    by (rule TraverseArray_all_Inr)
  moreover have "map (\<lambda>x. projr (?f x)) ?xs = map (\<lambda>x. projr (exchangeDocumentFromNode x)) (map snd ?xs)"
    using assms(4) map_snd_enumerate_fun [of "\<lambda>x. projr (exchangeDocumentFromNode x)" 0]
    by (simp add: case_prod_unfold)
  ultimately show ?thesis
    using assms(1-4) by (simp add: processSingleXML_def)
qed

text \<open>
  C2, as the program has it. A \<open>patent-classification\<close> node without a scheme or without
  a symbol does not make the file fail: the classifications of its exchange-document are
  taken as empty. In a file that can be opened and parsed, is not cancelled and whose
  exchange-documents all have their four required attributes, every exchange-document
  yields a row, and the row of the document with the defective node has an empty
  \<open>cpc_list\<close>.
\<close>

theorem defective_classification_keeps_file:
  assumes "OpenErr src = None" "StatErr src = None" "Parsed src = Inr doc"
    and "\<forall>p. \<not> ctx p"
    and "\<forall>x\<in>set (find_descendants ''exchange-document'' doc). has_required_attributes x"
    and "d \<in> set (find_descendants ''exchange-document'' doc)"
    and "pc \<in> set (find_descendants ''patent-classification'' d)"
    and "lacks_scheme_or_symbol pc"
  shows "\<exists>rows row. processSingleXML ctx src = Inr rows \<and>
           length rows = length (find_descendants ''exchange-document'' doc) \<and>
           row \<in> set rows \<and> exchangeDocumentFromNode d = Inr row \<and> cpc_list row = []"
proof -
  let ?rows = "map (\<lambda>x. projr (exchangeDocumentFromNode x)) (find_descendants ''exchange-document'' doc)"
  let ?row = "projr (exchangeDocumentFromNode d)"
  have 1: "processSingleXML ctx src = Inr ?rows"
    by (rule processSingleXML_ok [OF assms(1-5)])
  have req: "has_required_attributes d" using assms(5,6) by blast
  have 2: "exchangeDocumentFromNode d = Inr ?row"
    by (simp add: exchangeDocumentFromNode_ok [OF req])
  have "cpcStr (documentFromNode d) = []"
    using classifications_empty [OF assms(7,8)]
    by (simp add: cpcStr_def cpcSet_def documentFromNode_def Join_def)
  then have 3: "cpc_list ?row = []"
    by (simp add: exchangeDocumentFromNode_ok [OF req])
  have 4: "?row \<in> set ?rows" using assms(6) by simp
  show ?thesis using 1 2 3 4 by (intro exI [of _ ?rows] exI [of _ ?row]) simp
qed

theorem defective_classification_keeps_file_witness:
  "\<exists>rows row.
     processSingleXML (\<lambda>p. False) (xml_file [sample_cpc, sample_defective]) = Inr rows \<and>
     length rows
       = length (find_descendants ''exchange-document''
                   (DocumentNode [elem ''exchange-documents'' [sample_cpc, sample_defective]])) \<and>
     row \<in> set rows \<and> exchangeDocumentFromNode sample_defective = Inr row \<and> cpc_list row = []"
proof -
  let ?doc = "DocumentNode [elem ''exchange-documents'' [sample_cpc, sample_defective]]"
  have 1: "OpenErr (xml_file [sample_cpc, sample_defective]) = None"
    and 2: "StatErr (xml_file [sample_cpc, sample_defective]) = None"
    and 3: "Parsed (xml_file [sample_cpc, sample_defective]) = Inr ?doc"
    by (simp_all add: xml_file_def)
  have 4: "\<forall>p. \<not> (\<lambda>p. False) p" by simp
  have 5: "\<forall>x\<in>set (find_descendants ''exchange-document'' ?doc). has_required_attributes x"
    by code_simp
  have 6: "sample_defective \<in> set (find_descendants ''exchange-document'' ?doc)"
    by code_simp
  have 7: "classification_without_scheme
             \<in> set (find_descendants ''patent-classification'' sample_defective)"
    by code_simp
  have 8: "lacks_scheme_or_symbol classification_without_scheme"
    by code_simp
  show ?thesis
    by (rule defective_classification_keeps_file [OF 1 2 3 4 5 6 7 8])
qed

text \<open>
  C2, as the specification has it, fails: the second document of this file has a
  \<open>patent-classification\<close> node without a \<open>classification-scheme\<close> child, yet the file
  is processed, both its rows are written and it is counted as a success.
\<close>

theorem defective_classification_not_rejected:
  "classification_without_scheme
     \<in> set (find_descendants ''patent-classification'' sample_defective) \<and>
   lacks_scheme_or_symbol classification_without_scheme \<and>
   processSingleXML (\<lambda>p. False) (xml_file [sample_cpc, sample_defective])
     = Inr [[''EP1000A1'', ''A'', ''A01B 1/00;H04L 9/00'', [], []],
            [''EP2000B1'', ''A'', [], [], []]] \<and>
   parse_worker (\<lambda>p. False) ''a.xml'' (xml_file [sample_cpc, sample_defective]) initial_state
     = initial_state
         \<lparr>csv_rows := csv_rows initial_state @
                        [[''EP1000A1'', ''A'', ''A01B 1/00;H04L 9/00'', [], []],
                         [''EP2000B1'', ''A'', [], [], []]],
          xmlFilesSuccess := 1, recordsTotal := 2, processedFiles := 1\<rparr>"
  by code_simp

section \<open>Retrying a download\<close>

lemma wrap64_id: "- (2 ^ 63) \<le> x \<Longrightarrow> x < 2 ^ 63 \<Longrightarrow> wrap64 x = x"
  unfolding wrap64_def by (simp add: mod_pos_pos_trivial)

lemma backoff_delay:
  assumes "i \<le> 10"
  shows "wrap64 (5000000 * 2 ^ i) = 5000000 * 2 ^ i"
proof -
  have "(2::int) ^ i \<le> 2 ^ 10" using assms by (intro power_increasing) simp_all
  then have "(5000000::int) * 2 ^ i \<le> 5000000 * 2 ^ 10" by simp
  then have "(5000000::int) * 2 ^ i < 2 ^ 63" by simp
  moreover have "- (2 ^ 63) \<le> (5000000::int) * 2 ^ i" 
    by (rule order_trans [of _ 0]) simp_all
  ultimately show ?thesis by (rule wrap64_id [rotated])
qed

lemma DownloadFile_policy_apply:
  assumes "IterNumber st \<le> 10"
  shows "DownloadFile_policy env st =
           (if IterNumber st < MaxRetries env then Some (5000000 * 2 ^ IterNumber st) else None)"
  using backoff_delay [OF assms]
  by (simp add: DownloadFile_policy_def Concat_def LimitRetries_def ExponentialBackoff_def max_def)

lemma DownloadFile_action_attempt:
  "DownloadFile_action env st = attempt_result env (IterNumber st)"
  by (simp add: DownloadFile_action_def attempt_result_def)

lemma log_from_step: "i < n \<Longrightarrow> log_from i n = [Attempt i, Sleep (5000000 * 2 ^ i)] @ log_from (Suc i) n"
  by (simp add: log_from_def upt_conv_Cons)

lemma log_from_same: "log_from n n = [Attempt n]"
  by (simp add: log_from_def)

lemma Retrying_from_limit:
  assumes "IterNumber st = i" and "i \<le> MaxRetries env" and "MaxRetries env \<le> 10"
  shows "\<exists>n. i \<le> n \<and> n \<le> MaxRetries env \<and>
              Retrying_from (DownloadFile_policy env) (DownloadFile_action env) DownloadFile_check st log
                = Some (log @ log_from i n, attempt_result env n) \<and>
              (\<forall>j. i \<le> j \<and> j < n \<longrightarrow> isl (attempt_result env j)) \<and>
              (isl (attempt_result env n) \<longrightarrow> n = MaxRetries env)"
  using assms
proof (induction "MaxRetries env - i" arbitrary: i st log)
  case 0
  then have i: "i = MaxRetries env" by simp
  have pol: "DownloadFile_policy env st = None"
    using 0 i DownloadFile_policy_apply [of st env] by simp
  have "Retrying_from (DownloadFile_policy env) (DownloadFile_action env) DownloadFile_check st log
          = Some (log @ [Attempt i], attempt_result env i)"
    by (subst Retrying_from.simps)
       (simp add: Let_def DownloadFile_action_attempt 0 ApplyPolicy_def pol)
  then show ?case using i by (intro exI [of _ i]) (auto simp: log_from_same)
next
  case (Suc k)
  then have lt: "i < MaxRetries env" by simp
  have i10: "IterNumber st \<le> 10" using Suc by simp
  show ?case
  proof (cases "DownloadFile_check (attempt_result env i)")
    case False
    then have "Retrying_from (DownloadFile_policy env) (DownloadFile_action env) DownloadFile_check st log
          = Some (log @ [Attempt i], attempt_result env i)"
      by (subst Retrying_from.simps) (simp add: Let_def DownloadFile_action_attempt Suc.prems)
    moreover from False have "\<not> isl (attempt_result env i)"
      by (simp add: DownloadFile_check_def split: sum.splits)
    ultimately show ?thesis using lt by (intro exI [of _ i]) (auto simp: log_from_same)
  next
    case True
    let ?st1 = "ApplyPolicy (DownloadFile_policy env) st"
    have pol: "DownloadFile_policy env st = Some (5000000 * 2 ^ i)"
      using DownloadFile_policy_apply [OF i10, of env] lt Suc.prems by simp
    have st1: "IterNumber ?st1 = Suc i" "PreviousDelay ?st1 = Some (5000000 * 2 ^ i)"
      using Suc.prems pol by (simp_all add: ApplyPolicy_def Let_def)
    have step: "Retrying_from (DownloadFile_policy env) (DownloadFile_action env) DownloadFile_check st log
          = Retrying_from (DownloadFile_policy env) (DownloadFile_action env) DownloadFile_check ?st1
              ((log @ [Attempt i]) @ [Sleep (5000000 * 2 ^ i)])"
      using True st1
      by (subst Retrying_from.simps) (simp add: Let_def DownloadFile_action_attempt Suc.prems)
    have k: "k = MaxRetries env - Suc i" using Suc.hyps(2) by simp
    from Suc.hyps(1) [OF k st1(1) _ Suc.prems(3), of "(log @ [Attempt i]) @ [Sleep (5000000 * 2 ^ i)]"] lt
    obtain n where n: "Suc i \<le> n" "n \<le> MaxRetries env"
      "Retrying_from (DownloadFile_policy env) (DownloadFile_action env) DownloadFile_check ?st1
          ((log @ [Attempt i]) @ [Sleep (5000000 * 2 ^ i)])
        = Some (((log @ [Attempt i]) @ [Sleep (5000000 * 2 ^ i)]) @ log_from (Suc i) n, attempt_result env n)"
      "\<forall>j. Suc i \<le> j \<and> j < n \<longrightarrow> isl (attempt_result env j)"
      "isl (attempt_result env n) \<longrightarrow> n = MaxRetries env"
      by auto
    have isl_i: "isl (attempt_result env i)"
      using True by (simp add: DownloadFile_check_def split: sum.splits)
    have all: "\<forall>j. i \<le> j \<and> j < n \<longrightarrow> isl (attempt_result env j)"
    proof (intro allI impI)
      fix j assume "i \<le> j \<and> j < n"
      then show "isl (attempt_result env j)"
        using n(4) isl_i by (cases "j = i") auto
    qed
    have "i < n" using n(1) by simp
    then have "log @ log_from i n = ((log @ [Attempt i]) @ [Sleep (5000000 * 2 ^ i)]) @ log_from (Suc i) n"
      by (simp add: log_from_step)
    with step n(3) have "Retrying_from (DownloadFile_policy env) (DownloadFile_action env) DownloadFile_check st log
        = Some (log @ log_from i n, attempt_result env n)" by simp
    with n(1,2,5) all show ?thesis by (intro exI [of _ n]) auto
  qed
qed

text \<open>
  A download whose scope is not cancelled and that is not skipped, with a checksum of at
  least 12 bytes and \<open>MaxRetries\<close> at most 10, returns after an attempt \<open>n\<close> with
  \<open>n \<le> MaxRetries\<close>, that is after the first try and at most \<open>MaxRetries\<close> retries:
  the attempts 0 to \<open>n\<close> were made in turn, attempt \<open>i\<close> being followed by a sleep of
  5 ms times \<open>2 ^ i\<close>; every attempt before \<open>n\<close> ended in an error, whatever the error;
  the result is that of attempt \<open>n\<close>, and it is an error only when the retries are used
  up.
\<close>

lemma DownloadFile_retries_uncancelled:
  assumes "12 \<le> length (checksum env)"
    and "\<not> cancelled_at_start env" and "\<not> (SkipExists env \<and> checksum_ok env)"
    and "MaxRetries env \<le> 10" and "\<forall>i. \<not> cancelled env i"
  shows "\<exists>n\<le>MaxRetries env.
           DownloadFile env = Some (Return (retry_log n, http env n)) \<and>
           (\<forall>i<n. isl (http env i)) \<and>
           (isl (http env n) \<longrightarrow> n = MaxRetries env)"
proof -
  have att: "attempt_result env i = http env i" for i
    using assms(5) by (simp add: attempt_result_def)
  have "IterNumber DefaultRetryStatus = 0" by (simp add: DefaultRetryStatus_def)
  from Retrying_from_limit [OF this _ assms(4), of "[]"]
  obtain n where "n \<le> MaxRetries env"
    "Retrying_from (DownloadFile_policy env) (DownloadFile_action env) DownloadFile_check
        DefaultRetryStatus [] = Some (log_from 0 n, attempt_result env n)"
    "\<forall>j. j < n \<longrightarrow> isl (attempt_result env j)"
    "isl (attempt_result env n) \<longrightarrow> n = MaxRetries env"
    by auto
  then show ?thesis
    using assms(1-3)
    by (intro exI [of _ n]) (auto simp: DownloadFile_def Retrying_def retry_log_def att)
qed

text \<open>Two attempts that meet status 500, then one that copies 100 bytes.\<close>

lemma DownloadFile_third_attempt_succeeds:
  "DownloadFile sample_download
     = Some (Return ([Attempt 0, Sleep 5000000, Attempt 1, Sleep 10000000, Attempt 2], Inr 100))"
  by code_simp

text \<open>With a checksum of fewer than 12 bytes the function panics before anything else.\<close>

lemma DownloadFile_short_checksum:
  "length (checksum env) < 12 \<Longrightarrow> DownloadFile env = Some (Panic ''slice bounds out of range'')"
  by (simp add: DownloadFile_def)

text \<open>
  C4. Once the scope is cancelled the download should return the cancellation error at
  once and retry no more. It does not: with three retries, requests that always meet
  status 500 and a scope that is cancelled after the first attempt, attempt 1 finds the
  scope cancelled, and the loop still sleeps and makes the attempts 2 and 3 before it
  returns the cancellation error.
\<close>

theorem cancelled_download_still_retried:
  "MaxRetries sample_cancelled_download = 3 \<and>
   cancelled sample_cancelled_download 1 \<and>
   DownloadFile sample_cancelled_download
     = Some (Return ([Attempt 0, Sleep 5000000, Attempt 1, Sleep 10000000, Attempt 2,
                      Sleep 20000000, Attempt 3], Inl Canceled))"
  by code_simp

section \<open>Destinations of archive entries\<close>

lemma split_slash_not_Nil: "split_slash s \<noteq> []"
  by (induction s) (auto split: list.splits)

lemma split_slash_append: "split_slash (a @ CHR ''/'' # b) = split_slash a @ split_slash b"
proof (induction a)
  case Nil
  show ?case by simp
next
  case (Cons c cs)
  obtain x xs where x: "split_slash cs = x # xs"
    using split_slash_not_Nil [of cs] by (cases "split_slash cs") auto
  show ?case using Cons x by simp
qed

lemma split_slash_no_slash: "e \<in> set (split_slash s) \<Longrightarrow> CHR ''/'' \<notin> set e"
  by (induction s arbitrary: e) (auto split: if_splits list.splits)

lemma split_slash_single: "CHR ''/'' \<notin> set e \<Longrightarrow> split_slash e = [e]"
  by (induction e) auto

lemma Join_Cons: "Join (e # e' # es) sep = e @ sep @ Join (e' # es) sep"
  by (simp add: Join_def)

lemma split_slash_Join:
  "es \<noteq> [] \<Longrightarrow> \<forall>e\<in>set es. CHR ''/'' \<notin> set e \<Longrightarrow> split_slash (Join es ''/'') = es"
proof (induction es)
  case Nil
  then show ?case by simp
next
  case (Cons e es)
  show ?case
  proof (cases es)
    case Nil
    then show ?thesis using Cons.prems by (simp add: Join_def split_slash_single)
  next
    case (Cons e' es')
    have "split_slash (Join (e # e' # es') ''/'') = split_slash e @ split_slash (Join (e' # es') ''/'')"
      by (simp add: Join_Cons split_slash_append)
    then show ?thesis
      using Cons Cons.prems Cons.IH by (simp add: split_slash_single)
  qed
qed

text \<open>The stack of \<open>Clean\<close>: proper elements, with \<open>..\<close> only in front and only in a relative path.\<close>

lemma clean_step_stack:
  assumes "\<forall>e\<in>set out. e \<noteq> [] \<and> e \<noteq> ''.'' \<and> CHR ''/'' \<notin> set e"
    and "''..'' \<notin> set (dropWhile (\<lambda>e. e = ''..'') out)"
    and "r \<longrightarrow> ''..'' \<notin> set out"
    and "CHR ''/'' \<notin> set e"
  shows "(\<forall>e\<in>set (clean_step r out e). e \<noteq> [] \<and> e \<noteq> ''.'' \<and> CHR ''/'' \<notin> set e) \<and>
         ''..'' \<notin> set (dropWhile (\<lambda>e. e = ''..'') (clean_step r out e)) \<and>
         (r \<longrightarrow> ''..'' \<notin> set (clean_step r out e))"
proof (cases "e = [] \<or> e = ''.''")
  case True
  then show ?thesis using assms by (auto simp: clean_step_def)
next
  case False
  show ?thesis
  proof (cases "e = ''..''")
    case False
    with \<open>\<not> (e = [] \<or> e = ''.'')\<close> have "clean_step r out e = out @ [e]"
      by (simp add: clean_step_def)
    then show ?thesis using assms False \<open>\<not> (e = [] \<or> e = ''.'')\<close>
      by (auto simp: dropWhile_append)
  next
    case True
    show ?thesis
    proof (cases "out \<noteq> [] \<and> last out \<noteq> ''..''")
      case pop: True
      then have cs: "clean_step r out e = butlast out"
        using True by (simp add: clean_step_def)
      have "dropWhile (\<lambda>e. e = ''..'') (butlast out) = butlast (dropWhile (\<lambda>e. e = ''..'') out)"
        using pop by (induction out) auto
      then have "''..'' \<notin> set (dropWhile (\<lambda>e. e = ''..'') (butlast out))"
        using assms(2) by (auto dest: in_set_butlastD)
      then show ?thesis using cs assms by (auto dest: in_set_butlastD)
    next
      case nopop: False
      show ?thesis
      proof (cases r)
        case True
        then show ?thesis
          using nopop \<open>e = ''..''\<close> assms by (auto simp: clean_step_def)
      next
        case False
        then have cs: "clean_step r out e = out @ [''..'']"
          using nopop \<open>e = ''..''\<close> by (auto simp: clean_step_def)
        have "dropWhile (\<lambda>e. e = ''..'') out = []"
        proof (rule ccontr)
          assume ne: "dropWhile (\<lambda>e. e = ''..'') out \<noteq> []"
          then have "out \<noteq> []" by auto
          with nopop have "last out = ''..''" by simp
          moreover have "last (dropWhile (\<lambda>e. e = ''..'') out) = last out"
            using ne by (induction out) (auto split: if_splits)
          ultimately have "''..'' \<in> set (dropWhile (\<lambda>e. e = ''..'') out)"
            using ne last_in_set by metis
          with assms(2) show False by simp
        qed
        then have "\<forall>x\<in>set out. x = ''..''" by (simp add: dropWhile_eq_Nil_conv)
        then have "dropWhile (\<lambda>e. e = ''..'') (out @ [''..'']) = []"
          by (simp add: dropWhile_eq_Nil_conv)
        then show ?thesis using cs assms False by auto
      qed
    qed
  qed
qed

lemma foldl_clean_step_stack:
  assumes "\<forall>e\<in>set out. e \<noteq> [] \<and> e \<noteq> ''.'' \<and> CHR ''/'' \<notin> set e"
    and "''..'' \<notin> set (dropWhile (\<lambda>e. e = ''..'') out)"
    and "r \<longrightarrow> ''..'' \<notin> set out"
    and "\<forall>e\<in>set es. CHR ''/'' \<notin> set e"
  shows "(\<forall>e\<in>set (foldl (clean_step r) out es). e \<noteq> [] \<and> e \<noteq> ''.'' \<and> CHR ''/'' \<notin> set e) \<and>
         ''..'' \<notin> set (dropWhile (\<lambda>e. e = ''..'') (foldl (clean_step r) out es)) \<and>
         (r \<longrightarrow> ''..'' \<notin> set (foldl (clean_step r) out es))"
  using assms
proof (induction es arbitrary: out)
  case Nil
  then show ?case by simp
next
  case (Cons e es)
  have e: "CHR ''/'' \<notin> set e" using Cons.prems(4) by simp
  have es: "\<forall>e\<in>set es. CHR ''/'' \<notin> set e" using Cons.prems(4) by simp
  from clean_step_stack [OF Cons.prems(1-3) e]
  have 1: "\<forall>e\<in>set (clean_step r out e). e \<noteq> [] \<and> e \<noteq> ''.'' \<and> CHR ''/'' \<notin> set e"
    and 2: "''..'' \<notin> set (dropWhile (\<lambda>e. e = ''..'') (clean_step r out e))"
    and 3: "r \<longrightarrow> ''..'' \<notin> set (clean_step r out e)"
    by blast+
  show ?case using Cons.IH [OF 1 2 3 es] by simp
qed

lemma clean_elems_stack:
  "(\<forall>e\<in>set (clean_elems q). e \<noteq> [] \<and> e \<noteq> ''.'' \<and> CHR ''/'' \<notin> set e) \<and>
   ''..'' \<notin> set (dropWhile (\<lambda>e. e = ''..'') (clean_elems q)) \<and>
   (is_rooted q \<longrightarrow> ''..'' \<notin> set (clean_elems q))"
  unfolding clean_elems_def
  by (rule foldl_clean_step_stack) (auto dest: split_slash_no_slash)

lemma foldl_clean_step_id:
  assumes "\<forall>e\<in>set (acc @ es). e \<noteq> [] \<and> e \<noteq> ''.''"
    and "''..'' \<notin> set (dropWhile (\<lambda>e. e = ''..'') (acc @ es))"
    and "r \<longrightarrow> ''..'' \<notin> set (acc @ es)"
  shows "foldl (clean_step r) acc es = acc @ es"
  using assms
proof (induction es arbitrary: acc)
  case Nil
  then show ?case by simp
next
  case (Cons e es)
  have e: "e \<noteq> []" "e \<noteq> ''.''" using Cons.prems(1) by auto
  have step: "clean_step r acc e = acc @ [e]"
  proof (cases "e = ''..''")
    case False
    then show ?thesis using e by (simp add: clean_step_def)
  next
    case True
    then have nr: "\<not> r" using Cons.prems(3) by auto
    have "\<forall>x\<in>set acc. x = ''..''"
    proof (rule ccontr)
      assume "\<not> (\<forall>x\<in>set acc. x = ''..'')"
      then have "dropWhile (\<lambda>e. e = ''..'') (acc @ e # es) = dropWhile (\<lambda>e. e = ''..'') acc @ e # es"
        by (auto simp: dropWhile_append)
      then show False using Cons.prems(2) True by simp
    qed
    then have "acc = [] \<or> last acc = ''..''" by (cases acc rule: rev_cases) auto
    then show ?thesis using True nr by (auto simp: clean_step_def)
  qed
  have "foldl (clean_step r) (acc @ [e]) es = (acc @ [e]) @ es"
    using Cons.prems by (intro Cons.IH) simp_all
  then show ?case using step by simp
qed

lemma Clean_idem:
  "clean_elems (Clean q) = clean_elems q \<and> is_rooted (Clean q) = is_rooted q"
proof (cases "clean_elems q = []")
  case True
  then show ?thesis
    by (cases "is_rooted q")
       (simp_all add: Clean_def Join_def clean_elems_def is_rooted_def clean_step_def)
next
  case False
  let ?es = "clean_elems q"
  note st = clean_elems_stack [of q]
  have slash: "\<forall>e\<in>set ?es. CHR ''/'' \<notin> set e" using st by blast
  have sp: "split_slash (Join ?es ''/'') = ?es"
    by (rule split_slash_Join [OF False slash])
  obtain e es' where es: "?es = e # es'" using False by (cases ?es) auto
  then have e: "e \<noteq> []" "CHR ''/'' \<notin> set e" using st by auto
  then obtain c cs where c: "e = c # cs" "c \<noteq> CHR ''/''" by (cases e) auto
  have app: "(@) ''/'' = (#) CHR ''/''"
    by (rule ext) simp
  have J: "Join ?es ''/'' = c # (cs @ concat (map (\<lambda>y. CHR ''/'' # y) es'))"
    using es c by (simp add: Join_def app)
  have id: "foldl (clean_step r) [] ?es = ?es" if "r = is_rooted q" for r
    using st that by (intro foldl_clean_step_id [of "[]", simplified]) auto
  show ?thesis
  proof (cases "is_rooted q")
    case True
    have C: "Clean q = CHR ''/'' # Join ?es ''/''"
      using True by (simp add: Clean_def)
    have "split_slash (Clean q) = [] # ?es"
      unfolding C using sp by simp
    moreover have rc: "is_rooted (Clean q)" unfolding C by (simp add: is_rooted_def)
    moreover have "clean_elems (Clean q)
                     = foldl (clean_step (is_rooted (Clean q))) [] (split_slash (Clean q))"
      by (simp add: clean_elems_def)
    ultimately have "clean_elems (Clean q) = foldl (clean_step True) [] ?es"
      by (simp add: clean_step_def)
    then show ?thesis using True rc id [of True] by simp
  next
    case nr: False
    have C: "Clean q = Join ?es ''/''"
      using nr J by (simp add: Clean_def)
    have nrc: "\<not> is_rooted (Clean q)" unfolding C J using c by (simp add: is_rooted_def)
    have "clean_elems (Clean q) = foldl (clean_step (is_rooted (Clean q))) [] (split_slash (Clean q))"
      by (simp add: clean_elems_def)
    also have "\<dots> = foldl (clean_step False) [] ?es"
      using nrc sp by (simp add: C)
    also have "\<dots> = ?es" using nr id [of False] by simp
    finally show ?thesis using nr nrc by simp
  qed
qed

lemma foldl_clean_step_append:
  "''..'' \<notin> set es \<Longrightarrow>
   foldl (clean_step r) acc es = acc @ filter (\<lambda>e. e \<noteq> [] \<and> e \<noteq> ''.'') es"
  by (induction es arbitrary: acc) (auto simp: clean_step_def)

lemma destPath_under:
  assumes "destDir \<noteq> []" and "''..'' \<notin> set (split_slash name)"
  shows "under destDir (destPath destDir name)"
proof (cases "name = []")
  case True
  then have "destPath destDir name = Clean destDir"
    using assms(1) by (simp add: destPath_def filepath_Join_def Join_def)
  then show ?thesis using Clean_idem [of destDir] by (simp add: under_def)
next
  case False
  let ?q = "destDir @ CHR ''/'' # name"
  let ?rest = "filter (\<lambda>e. e \<noteq> [] \<and> e \<noteq> ''.'') (split_slash name)"
  have dp: "destPath destDir name = Clean ?q"
    using assms(1) False by (simp add: destPath_def filepath_Join_def Join_def)
  have r: "is_rooted ?q = is_rooted destDir"
    using assms(1) by (cases destDir) (simp_all add: is_rooted_def)
  have "clean_elems ?q
          = foldl (clean_step (is_rooted destDir)) (clean_elems destDir) (split_slash name)"
    by (simp add: clean_elems_def r split_slash_append)
  then have q: "clean_elems ?q = clean_elems destDir @ ?rest"
    using foldl_clean_step_append [OF assms(2)] by simp
  have "''..'' \<notin> set ?rest" using assms(2) by simp
  then show ?thesis using Clean_idem [of ?q] r q by (simp add: under_def dp)
qed

lemma extractEntry_written:
  assumes "extractEntry zipPath entries destDir fs (name, Some c) = (fs', None)"
  shows "map_of fs' (destPath destDir name) = Some (File c)"
  using assms
  by (auto simp: extractEntry_def Let_def update_conv' split: prod.splits option.splits if_splits)

text \<open>
  C3, as the program has it. An entry that \<open>extractZipToDir\<close> extracts is written at the
  cleaned join of \<open>destDir\<close> and its name, whatever the name is: there is no check and no
  rejection. That path remains under \<open>destDir\<close> when the name has no element \<open>..\<close>.
\<close>

theorem extractEntry_destination:
  assumes "extractEntry zipPath entries destDir fs (name, Some c) = (fs', None)"
    and "destDir \<noteq> []"
  shows "map_of fs' (destPath destDir name) = Some (File c) \<and>
         (''..'' \<notin> set (split_slash name) \<longrightarrow> under destDir (destPath destDir name))"
  using extractEntry_written [OF assms(1)] destPath_under [OF assms(2)] by blast

theorem extractEntry_destination_witness:
  "map_of [(''data'', Directory), (''data/a'', Directory),
           (''data/a/evil.zip'',
            File (ZipArchive [(''../../evil.txt'', Some (Bytes ''boo'')),
                              (''sub/ok.xml'', Some (Bytes ''<ok/>''))])),
           (''data/a/sub'', Directory),
           (''data/a/sub/ok.xml'', File (Bytes ''<ok/>''))]
      (destPath ''data/a'' ''sub/ok.xml'') = Some (File (Bytes ''<ok/>'')) \<and>
   under ''data/a'' (destPath ''data/a'' ''sub/ok.xml'')"
proof -
  have 1: "extractEntry ''data/a/evil.zip''
             [(''../../evil.txt'', Some (Bytes ''boo'')), (''sub/ok.xml'', Some (Bytes ''<ok/>''))]
             ''data/a'' sample_slip_fs (''sub/ok.xml'', Some (Bytes ''<ok/>''))
           = ([(''data'', Directory), (''data/a'', Directory),
               (''data/a/evil.zip'',
                File (ZipArchive [(''../../evil.txt'', Some (Bytes ''boo'')),
                                  (''sub/ok.xml'', Some (Bytes ''<ok/>''))])),
               (''data/a/sub'', Directory),
               (''data/a/sub/ok.xml'', File (Bytes ''<ok/>''))], None)"
    by code_simp
  have 2: "''data/a'' \<noteq> []" by simp
  have 3: "''..'' \<notin> set (split_slash ''sub/ok.xml'')" by code_simp
  show ?thesis
    using extractEntry_destination [OF 1 2] 3 by blast
qed

text \<open>
  C3, as the specification has it, fails. The entry \<open>../../evil.txt\<close> of an archive
  extracted to \<open>data/a\<close> has the destination \<open>evil.txt\<close>, which is not under \<open>data/a\<close>;
  the extraction reports no error and the file is written there.
\<close>

theorem entry_written_outside_destDir:
  "destPath ''data/a'' ''../../evil.txt'' = ''evil.txt'' \<and>
   \<not> under ''data/a'' ''evil.txt'' \<and>
   extractZipToDir sample_slip_fs ''data/a/evil.zip'' ''data/a''
     = ([(''data'', Directory), (''data/a'', Directory),
         (''data/a/evil.zip'',
          File (ZipArchive [(''../../evil.txt'', Some (Bytes ''boo'')),
                            (''sub/ok.xml'', Some (Bytes ''<ok/>''))])),
         (''evil.txt'', File (Bytes ''boo'')),
         (''data/a/sub'', Directory),
         (''data/a/sub/ok.xml'', File (Bytes ''<ok/>''))], None)"
  by code_simp

section \<open>The fixpoint over nested archives\<close>

lemma fs_weight_update:
  "fs_weight (AList.update k v fs) + weight_at fs k = fs_weight fs + node_weight v"
  by (induction fs) (auto simp: fs_weight_def weight_at_def)

lemma weight_at_update:
  "weight_at (AList.update k v fs) p = (if p = k then node_weight v else weight_at fs p)"
  by (simp add: weight_at_def update_conv')

lemma fs_weight_delete: "fs_weight (AList.delete k fs) + weight_at fs k \<le> fs_weight fs"
  by (induction fs) (auto simp: fs_weight_def weight_at_def)

lemma entries_weight_less: "entries_weight es < size (ZipArchive es)"
proof -
  have "entries_weight es \<le> size_list (size_prod (\<lambda>x. 0) (size_option size)) es"
    by (induction es) (auto simp: entries_weight_def split: option.splits)
  then show ?thesis by simp
qed

text \<open>
  Writing a node changes the weight of the file system outside a path \<open>z\<close> by at most the
  weight of the node, and what \<open>z\<close> holds remains a file.
\<close>

lemma update_weight:
  "fs_weight (AList.update k v fs) + weight_at fs z
     \<le> fs_weight fs + weight_at (AList.update k v fs) z + node_weight v"
  using fs_weight_update [of k v fs] by (cases "z = k") (simp_all add: weight_at_update)

lemma mkdirs_weight:
  assumes "\<exists>c. map_of fs z = Some (File c)"
  shows "fs_weight (fst (mkdirs fs ds)) + weight_at fs z
           \<le> fs_weight fs + weight_at (fst (mkdirs fs ds)) z \<and>
         (\<exists>c. map_of (fst (mkdirs fs ds)) z = Some (File c))"
  using assms
proof (induction ds arbitrary: fs)
  case Nil
  then show ?case by simp
next
  case (Cons d ds)
  show ?case
  proof (cases "stat fs d")
    case None
    then have dz: "d \<noteq> z" using Cons.prems by (auto simp: stat_def split: if_splits)
    let ?fs1 = "AList.update d Directory fs"
    have f1: "\<exists>c. map_of ?fs1 z = Some (File c)"
      using Cons.prems dz by (simp add: update_conv')
    have w1: "fs_weight ?fs1 + weight_at fs z \<le> fs_weight fs + weight_at ?fs1 z"
      using update_weight [of d Directory fs z] by (simp add: node_weight_def)
    from Cons.IH [OF f1] w1 None show ?thesis by simp
  next
    case (Some n)
    then show ?thesis using Cons.IH [OF Cons.prems] Cons.prems by (cases n) simp_all
  qed
qed

lemma extractEntry_weight:
  assumes "\<exists>c. map_of fs z = Some (File c)"
  shows "fs_weight (fst (extractEntry zipPath entries destDir fs f)) + weight_at fs z
           \<le> fs_weight fs + weight_at (fst (extractEntry zipPath entries destDir fs f)) z
               + entries_weight [f] \<and>
         (\<exists>c. map_of (fst (extractEntry zipPath entries destDir fs f)) z = Some (File c))"
proof (cases "snd f")
  case None
  then have "fst (extractEntry zipPath entries destDir fs f)
               = fst (mkdirs fs (ancestors (destPath destDir (fst f))))"
    by (simp add: extractEntry_def MkdirAll_def Let_def split: prod.splits option.splits)
  then show ?thesis using mkdirs_weight [OF assms] by (simp add: entries_weight_def None)
next
  case (Some c)
  let ?dest = "destPath destDir (fst f)"
  let ?fs1 = "fst (mkdirs fs (ancestors (filepath_Dir ?dest)))"
  have m: "fs_weight ?fs1 + weight_at fs z \<le> fs_weight fs + weight_at ?fs1 z"
    and f1: "\<exists>c. map_of ?fs1 z = Some (File c)"
    using mkdirs_weight [OF assms] by blast+
  let ?fs2 = "AList.update ?dest (File (Bytes [])) ?fs1"
  have c2: "fs_weight ?fs2 + weight_at ?fs1 z \<le> fs_weight ?fs1 + weight_at ?fs2 z"
    using update_weight [of ?dest "File (Bytes [])" ?fs1 z] by (simp add: node_weight_def)
  have f2: "\<exists>c. map_of ?fs2 z = Some (File c)"
    using f1 by (auto simp: update_conv')
  let ?fs3 = "AList.update ?dest (File c) ?fs2"
  have c3: "fs_weight ?fs3 + weight_at ?fs2 z \<le> fs_weight ?fs2 + weight_at ?fs3 z + size c"
    using update_weight [of ?dest "File c" ?fs2 z] by (simp add: node_weight_def)
  have f3: "\<exists>c. map_of ?fs3 z = Some (File c)"
    using f2 by (auto simp: update_conv')
  have w: "entries_weight [f] = size c" by (simp add: entries_weight_def Some)
  have "fst (extractEntry zipPath entries destDir fs f) \<in> {?fs1, ?fs2, ?fs3}"
    by (auto simp: extractEntry_def MkdirAll_def os_Create_def Let_def Some
             split: prod.splits option.splits fnode.splits)
  then consider "fst (extractEntry zipPath entries destDir fs f) = ?fs1"
    | "fst (extractEntry zipPath entries destDir fs f) = ?fs2"
    | "fst (extractEntry zipPath entries destDir fs f) = ?fs3" by blast
  then show ?thesis
  proof cases
    case 1
    then show ?thesis using m f1 by simp
  next
    case 2
    then show ?thesis using m c2 f2 by simp
  next
    case 3
    then show ?thesis using m c2 c3 f3 w by simp
  qed
qed

lemma entries_weight_Cons: "entries_weight (f # fs) = entries_weight [f] + entries_weight fs"
  by (simp add: entries_weight_def)

lemma extractEntries_weight:
  assumes "\<exists>c. map_of fs z = Some (File c)"
  shows "fs_weight (fst (extractEntries zipPath entries destDir fs es)) + weight_at fs z
           \<le> fs_weight fs + weight_at (fst (extractEntries zipPath entries destDir fs es)) z
               + entries_weight es \<and>
         (\<exists>c. map_of (fst (extractEntries zipPath entries destDir fs es)) z = Some (File c))"
  using assms
proof (induction es arbitrary: fs)
  case Nil
  then show ?case by (simp add: entries_weight_def)
next
  case (Cons f es)
  let ?fs1 = "fst (extractEntry zipPath entries destDir fs f)"
  have s: "fs_weight ?fs1 + weight_at fs z \<le> fs_weight fs + weight_at ?fs1 z + entries_weight [f]"
    and f1: "\<exists>c. map_of ?fs1 z = Some (File c)"
    using extractEntry_weight [OF Cons.prems] by blast+
  show ?case
  proof (cases "snd (extractEntry zipPath entries destDir fs f)")
    case (Some err)
    then have "fst (extractEntries zipPath entries destDir fs (f # es)) = ?fs1"
      by (cases "extractEntry zipPath entries destDir fs f") auto
    then show ?thesis using s f1 by (simp add: entries_weight_Cons [of f es])
  next
    case None
    then have "fst (extractEntries zipPath entries destDir fs (f # es))
                 = fst (extractEntries zipPath entries destDir ?fs1 es)"
      by (cases "extractEntry zipPath entries destDir fs f") auto
    then show ?thesis
      using Cons.IH [OF f1] s by (simp add: entries_weight_Cons [of f es])
  qed
qed

text \<open>An archive that has been extracted and removed makes the file system lighter.\<close>

lemma extract_and_remove_lighter:
  assumes "extractZipToDir fs z destDir = (fs1, None)" and "removable e z"
  shows "fs_weight (fst (os_Remove (removable e) fs1 z)) < fs_weight fs"
proof -
  obtain es where es: "map_of fs z = Some (File (ZipArchive es))"
    and ex: "extractEntries z es destDir fs es = (fs1, None)"
    using assms(1)
    by (auto simp: extractZipToDir_def zip_OpenReader_def
             split: option.splits fnode.splits content.splits)
  have isfile: "\<exists>c. map_of fs z = Some (File c)" using es by simp
  have w: "fs_weight fs1 + weight_at fs z \<le> fs_weight fs + weight_at fs1 z + entries_weight es"
    and f1: "\<exists>c. map_of fs1 z = Some (File c)"
    using extractEntries_weight [OF isfile, of z es destDir es] ex by simp_all
  have rm: "fst (os_Remove (removable e) fs1 z) = AList.delete z fs1"
    using f1 assms(2) by (auto simp: os_Remove_def)
  have "weight_at fs z = size (ZipArchive es)"
    using es by (simp add: weight_at_def node_weight_def)
  then have "entries_weight es < weight_at fs z"
    using entries_weight_less [of es] by simp
  then show ?thesis
    using w fs_weight_delete [of z fs1] rm by simp
qed

lemma extractPass_lighter:
  assumes "DeleteAfter e" and "\<forall>p. removable e p"
    and "extractPass e ctxk j fs zs = (fs', None)"
  shows "fs_weight fs' + length zs \<le> fs_weight fs"
  using assms(3)
proof (induction zs arbitrary: fs j)
  case Nil
  then show ?case by simp
next
  case (Cons z zs)
  from Cons.prems have nc: "\<not> ctxk (Suc j)" by (auto split: if_splits)
  obtain fs1 r where x: "extractZipToDir fs z (filepath_Dir z) = (fs1, r)"
    by (cases "extractZipToDir fs z (filepath_Dir z)")
  with Cons.prems nc have r: "r = None" by (cases r) (simp_all add: Let_def)
  let ?fs2 = "fst (os_Remove (removable e) fs1 z)"
  have rest: "extractPass e ctxk (Suc j) ?fs2 zs = (fs', None)"
    using Cons.prems nc x r assms(1) by (simp add: Let_def)
  have "fs_weight ?fs2 < fs_weight fs"
    using extract_and_remove_lighter [of fs z "filepath_Dir z" fs1 e] x r assms(2) by simp
  then show ?case using Cons.IH [OF rest] by simp
qed

text \<open>
  With \<open>deleteAfterExtract\<close> true and removals that succeed, the fixpoint returns on
  every file system: some amount of fuel suffices.
\<close>

lemma extractAllZipsInDir_deleting_returns:
  assumes "DeleteAfter e" and "\<forall>p. removable e p"
  shows "\<exists>fuel. extractAllZipsInDir fuel e ctx k dir fs \<noteq> None"
proof (induction "fs_weight fs" arbitrary: fs k rule: less_induct)
  case less
  show ?case
  proof (cases "ctx k 0")
    case True
    then have "extractAllZipsInDir (Suc 0) e ctx k dir fs \<noteq> None" by simp
    then show ?thesis by blast
  next
    case nc: False
    show ?thesis
    proof (cases "findAllZipFilesRecursive fs dir")
      case (Inl err)
      then have "extractAllZipsInDir (Suc 0) e ctx k dir fs \<noteq> None" using nc by simp
      then show ?thesis by blast
    next
      case (Inr zs)
      show ?thesis
      proof (cases "zs = []")
        case True
        then have "extractAllZipsInDir (Suc 0) e ctx k dir fs \<noteq> None" using nc Inr by simp
        then show ?thesis by blast
      next
        case ne: False
        obtain fs1 r where p: "extractPass e (ctx k) 0 fs zs = (fs1, r)"
          by (cases "extractPass e (ctx k) 0 fs zs")
        show ?thesis
        proof (cases r)
          case (Some err)
          then have "extractAllZipsInDir (Suc 0) e ctx k dir fs \<noteq> None"
            using nc Inr ne p by simp
          then show ?thesis by blast
        next
          case None
          have "fs_weight fs1 + length zs \<le> fs_weight fs"
            using extractPass_lighter [OF assms, of "ctx k" 0 fs zs fs1] p None by simp
          then have "fs_weight fs1 < fs_weight fs" using ne by (cases zs) simp_all
          from less [OF this, of "Suc k"]
          obtain fuel where "extractAllZipsInDir fuel e ctx (Suc k) dir fs1 \<noteq> None" by blast
          then have "extractAllZipsInDir (Suc fuel) e ctx k dir fs \<noteq> None"
            using nc Inr ne p None by simp
          then show ?thesis by blast
        qed
      qed
    qed
  qed
qed

lemma never_cancelled_row: "never_cancelled k = (\<lambda>j. False)"
  by (rule ext) (simp add: never_cancelled_def)

lemma walk_extracted: "findAllZipFilesRecursive sample_extracted_fs ''d'' = Inr [''d/inner.zip'']"
  by code_simp

lemma walk_nested: "findAllZipFilesRecursive sample_nested_fs ''d'' = Inr [''d/inner.zip'']"
  by code_simp

lemma pass_extracted:
  "extractPass keeping (\<lambda>j. False) 0 sample_extracted_fs [''d/inner.zip'']
     = (sample_extracted_fs, None)"
  by code_simp

lemma pass_nested:
  "extractPass keeping (\<lambda>j. False) 0 sample_nested_fs [''d/inner.zip'']
     = (sample_extracted_fs, None)"
  by code_simp

text \<open>
  Once the archive has been extracted and kept, a walk finds it again, extracts it again
  and leaves the file system as it was: no amount of fuel suffices.
\<close>

lemma keeping_extracted_never_returns:
  "extractAllZipsInDir fuel keeping never_cancelled k ''d'' sample_extracted_fs = None"
proof (induction fuel arbitrary: k)
  case 0
  show ?case by simp
next
  case (Suc fuel)
  have "extractAllZipsInDir (Suc fuel) keeping never_cancelled k ''d'' sample_extracted_fs
          = extractAllZipsInDir fuel keeping never_cancelled (Suc k) ''d'' sample_extracted_fs"
    by (simp add: walk_extracted never_cancelled_row pass_extracted del: extractPass.simps)
  then show ?case using Suc.IH by simp
qed

text \<open>
  C1. With \<open>deleteAfterExtract\<close> false, the fixpoint over a directory that holds one
  archive with one XML file does not terminate: whatever the fuel, the loop has not
  returned when it is used up. With \<open>deleteAfterExtract\<close> true the same directory is done
  after two walks (and every directory after some number of walks, as shown above).
\<close>

theorem extractAllZipsInDir_keeping_never_returns:
  "(\<forall>fuel. extractAllZipsInDir fuel keeping never_cancelled 0 ''d'' sample_nested_fs = None) \<and>
   extractAllZipsInDir 2 deleting never_cancelled 0 ''d'' sample_nested_fs
     = Some ([(''d'', Directory), (''d/a.xml'', File (Bytes ''<a/>''))], None)"
proof
  show "\<forall>fuel. extractAllZipsInDir fuel keeping never_cancelled 0 ''d'' sample_nested_fs = None"
  proof
    fix fuel
    show "extractAllZipsInDir fuel keeping never_cancelled 0 ''d'' sample_nested_fs = None"
    proof (cases fuel)
      case 0
      then show ?thesis by simp
    next
      case (Suc n)
      have "extractAllZipsInDir (Suc n) keeping never_cancelled 0 ''d'' sample_nested_fs
              = extractAllZipsInDir n keeping never_cancelled (Suc 0) ''d'' sample_extracted_fs"
        by (simp add: walk_nested never_cancelled_row pass_nested del: extractPass.simps)
      then show ?thesis using Suc keeping_extracted_never_returns by simp
    qed
  qed
  show "extractAllZipsInDir 2 deleting never_cancelled 0 ''d'' sample_nested_fs
          = Some ([(''d'', Directory), (''d/a.xml'', File (Bytes ''<a/>''))], None)"
    by code_simp
qed

end
